theory Spec2Isabelle
  imports Main "HOL-Library.AList" "HOL-Library.Char_ord" "HOL-Library.List_Lexorder" "HOL-Library.Sublist"
begin

section \<open>Transpose elimination (nntool): data model\<close>

text \<open>
  The model follows \<^verbatim>\<open>graph/manipulations/eliminate_transposes/eliminate_transposes.py\<close>.
  A sequence of integers of Python is a list or a tuple, and \<open>==\<close> never holds between a
  list and a tuple: \<open>[1, 0] == (1, 0)\<close> is false. The two are the constructors of \<open>seq\<close>,
  so that the equality of HOL on \<open>seq\<close> is the \<open>==\<close> of Python; \<open>items\<close> gives the
  elements, which is what \<open>len\<close>, \<open>tuple(...)\<close>, \<open>list(...)\<close> and iteration see. Permutations
  and shapes are such sequences. A \<open>Dim\<close> object is identified with its \<open>shape\<close>. A
  variable that the source calls \<open>transpose\<close> is \<open>tp\<close> here, and \<open>range\<close> is \<open>py_range\<close>.
\<close>

datatype seq = PyList "int list" | PyTuple "int list"

fun items :: "seq \<Rightarrow> int list" where
  "items (PyList xs) = xs"
| "items (PyTuple xs) = xs"

type_synonym perm = seq
type_synonym shape = seq

text \<open>
  The operator classes the pass tests with \<open>isinstance\<close>, with the attributes it reads:
  a Transpose node's \<open>transpose\<close>, a Reshape node's \<open>old_shape\<close> and \<open>shape\<close>, the
  \<open>batch_size\<close> of a linear layer (for a LinearFusion, of each contained filter),
  \<open>fixed_order\<close> of an input or output, and \<open>slice_shape\<close>, \<open>out_shape\<close>,
  \<open>changes_shape\<close> of a strided slice.
\<close>

datatype kind =
    Transpose perm
  | Reshape shape shape
  | Fc int
  | LinearFusion "int list"
  | Input bool
  | Output bool
  | ConstantInput
  | Concat
  | BinaryOp
  | PowOp
  | Pad
  | Reverse
  | StridedSlice shape shape bool
  | Copy
  | UnaryOp
  | Activation
  | Other

text \<open>
  A node. The marker classes \<open>SensitiveToOrder\<close> and \<open>Broadcastable\<close> are mixins of the
  operator classes, declared outside this file; they are fields of the node here.
\<close>

record node =
  name :: string
  kind :: kind
  sensitive_to_order :: bool
  broadcastable :: bool
  step_idx :: int
  in_dims :: "shape list"
  out_dims :: "shape list"

text \<open>
  The exceptions the explorers can raise: \<open>CantContinueError\<close>, and the errors of Python
  for an index out of range, a missing key, a \<open>None\<close> where a sequence is needed and a
  missing attribute. The driver's own \<open>ValueError\<close> is apart.
\<close>

datatype error = CantContinueError | IndexError | KeyError | TypeError | AttributeError

section \<open>Transpose algebra of this file\<close>

text \<open>
  The functions of this section iterate over their arguments and build a tuple; they
  are defined on the elements, and the explorers wrap their results in \<open>PyTuple\<close>.
\<close>

text \<open>\<open>range(n)\<close> of Python: empty when \<open>n \<le> 0\<close>.\<close>

definition py_range :: "int \<Rightarrow> int list" where
  "py_range n = map int [0..<nat n]"

text \<open>
  \<^verbatim>\<open>return axis - sum(1 if stripped_axis < axis else 0 for stripped_axis in stripped_axes)\<close>
\<close>

definition reduce_dimension :: "int \<Rightarrow> int list \<Rightarrow> int" where
  "reduce_dimension axis stripped_axes =
     axis - sum_list (map (\<lambda>stripped_axis. if stripped_axis < axis then 1 else 0) stripped_axes)"

text \<open>
  \<^verbatim>\<open>return tuple(list(range(num_new_axes)) + [axis + num_new_axes for axis in transpose])\<close>
\<close>

definition expand_axes_in_transpose :: "int list \<Rightarrow> int \<Rightarrow> int list" where
  "expand_axes_in_transpose tp num_new_axes =
     py_range num_new_axes @ map (\<lambda>axis. axis + num_new_axes) tp"

text \<open>
  \<^verbatim>\<open>return tuple(reduce_dimension(axis, stripped_axes) for axis in transpose
               if axis not in stripped_axes)\<close>
\<close>

definition strip_axes_from_transpose :: "int list \<Rightarrow> int list \<Rightarrow> int list" where
  "strip_axes_from_transpose tp stripped_axes =
     map (\<lambda>axis. reduce_dimension axis stripped_axes)
       (filter (\<lambda>axis. axis \<notin> set stripped_axes) tp)"

text \<open>\<^verbatim>\<open>return tuple(range(len(full_shape) - len(shape)))\<close>\<close>

definition broadcasted_axes :: "'a list \<Rightarrow> 'b list \<Rightarrow> int list" where
  "broadcasted_axes shape full_shape = py_range (int (length full_shape) - int (length shape))"

text \<open>
  \<^verbatim>\<open>def strip_leading_dim(shape, dim=1):
      res = list(shape.copy())
      while len(res) > 1 and res[0] == dim: res.pop(0)
      return tuple(res)\<close>
  A tuple has no \<open>copy\<close>: the call raises \<open>AttributeError\<close> on a tuple, and returns a
  tuple for a list.
\<close>

fun strip_leading :: "int list \<Rightarrow> int \<Rightarrow> int list" where
  "strip_leading (x # y # res) dim =
     (if x = dim then strip_leading (y # res) dim else x # y # res)"
| "strip_leading res dim = res"

definition strip_leading_dim :: "seq \<Rightarrow> int \<Rightarrow> error + seq" where
  "strip_leading_dim shape dim =
     (case shape of
        PyList xs \<Rightarrow> Inr (PyTuple (strip_leading xs dim))
      | PyTuple xs \<Rightarrow> Inl AttributeError)"

section \<open>Visit bookkeeping: class VisitedNodes\<close>

text \<open>
  \<open>VisitedNodes\<close> wraps a Python dict from node to a set of tag strings. The dict is an
  association list in insertion order: \<open>AList.update\<close> replaces the value of a key that is
  present where it stands and appends a new key at the end, as a dict assignment does.
  A dict has each key once (\<open>is_dict\<close>).
\<close>

type_synonym visited_nodes = "(node \<times> string set) list"

definition is_dict :: "('k \<times> 'v) list \<Rightarrow> bool" where
  "is_dict d = distinct (map fst d)"

text \<open>The decimal digits of an edge index, as the f-string \<^verbatim>\<open>f'down{idx}'\<close> prints it.\<close>

fun str :: "nat \<Rightarrow> string" where
  "str n = (if n < 10 then [char_of (48 + n)] else str (n div 10) @ [char_of (48 + n mod 10)])"

declare str.simps [simp del]

definition startswith :: "string \<Rightarrow> string \<Rightarrow> bool" where
  "startswith k pre = (take (length pre) k = pre)"

text \<open>\<^verbatim>\<open>self._nodes.get(node, set())\<close>\<close>

definition get_tags :: "visited_nodes \<Rightarrow> node \<Rightarrow> string set" where
  "get_tags ns x = (case map_of ns x of None \<Rightarrow> {} | Some visited \<Rightarrow> visited)"

text \<open>
  \<^verbatim>\<open>def __contains__(self, x): return x in self._nodes and any(self._nodes[x])\<close>
  \<open>any\<close> of a set of strings is true when one of them is not empty.
\<close>

definition contains :: "visited_nodes \<Rightarrow> node \<Rightarrow> bool" where
  "contains ns x =
     (case map_of ns x of None \<Rightarrow> False | Some visited \<Rightarrow> (\<exists>k \<in> visited. k \<noteq> []))"

text \<open>\<^verbatim>\<open>def __iter__(self): return iter([node for node, visit in self._nodes.items() if visit])\<close>\<close>

definition iter :: "visited_nodes \<Rightarrow> node list" where
  "iter ns = map fst (filter (\<lambda>(node, visit). visit \<noteq> {}) ns)"

text \<open>\<^verbatim>\<open>def __len__(self): return len([node for node, visit in self._nodes.items() if visit])\<close>\<close>

definition len :: "visited_nodes \<Rightarrow> nat" where
  "len ns = length (map fst (filter (\<lambda>(node, visit). visit \<noteq> {}) ns))"

text \<open>\<^verbatim>\<open>def add(self, value): self._nodes[value] = set()\<close>\<close>

definition add :: "visited_nodes \<Rightarrow> node \<Rightarrow> visited_nodes" where
  "add ns v = AList.update v {} ns"

text \<open>\<^verbatim>\<open>def discard(self, value): del self._nodes[value]\<close>\<close>

definition discard :: "visited_nodes \<Rightarrow> node \<Rightarrow> error + visited_nodes" where
  "discard ns v = (if v \<in> fst ` set ns then Inr (AList.delete v ns) else Inl KeyError)"

text \<open>
  \<^verbatim>\<open>def visit_down(self, node, idx):
      val = self._nodes.setdefault(node, set())
      val.add(f'down{idx}')\<close>
\<close>

definition visit_down :: "visited_nodes \<Rightarrow> node \<Rightarrow> nat \<Rightarrow> visited_nodes" where
  "visit_down ns n idx = AList.update n (insert (''down'' @ str idx) (get_tags ns n)) ns"

text \<open>
  \<^verbatim>\<open>def visited_down(self, node, idx=None):
      visited = self._nodes.get(node, set())
      if idx is None:
          return any(k.startswith('down') for k in visited)
      return f'down{idx}' in visited or 'down*' in visited\<close>
\<close>

definition visited_down :: "visited_nodes \<Rightarrow> node \<Rightarrow> nat option \<Rightarrow> bool" where
  "visited_down ns n idx =
     (let visited = get_tags ns n in
      case idx of
        None \<Rightarrow> (\<exists>k \<in> visited. startswith k ''down'')
      | Some i \<Rightarrow> (''down'' @ str i) \<in> visited \<or> ''down*'' \<in> visited)"

definition visit_up :: "visited_nodes \<Rightarrow> node \<Rightarrow> nat \<Rightarrow> visited_nodes" where
  "visit_up ns n idx = AList.update n (insert (''up'' @ str idx) (get_tags ns n)) ns"

definition visited_up :: "visited_nodes \<Rightarrow> node \<Rightarrow> nat option \<Rightarrow> bool" where
  "visited_up ns n idx =
     (let visited = get_tags ns n in
      case idx of
        None \<Rightarrow> (\<exists>k \<in> visited. startswith k ''up'')
      | Some i \<Rightarrow> (''up'' @ str i) \<in> visited \<or> ''up*'' \<in> visited)"

text \<open>
  \<^verbatim>\<open>def visited_direction(self, direction, idx, node):
      return f'{direction}{idx}' in self._nodes.get(node, set())\<close>
\<close>

definition visited_direction :: "visited_nodes \<Rightarrow> string \<Rightarrow> nat \<Rightarrow> node \<Rightarrow> bool" where
  "visited_direction ns direction idx n = ((direction @ str idx) \<in> get_tags ns n)"

text \<open>
  The right operand of \<open>|\<close> and \<open>|=\<close>: another \<open>VisitedNodes\<close>, or any other iterable of
  nodes (a plain set of committed nodes, or the empty list that \<open>search_down\<close> returns
  for a single-axis permutation).
\<close>

datatype visited_arg = VN visited_nodes | Plain "node list"

text \<open>
  \<^verbatim>\<open>def __or_nodes(s, res):
      if isinstance(s, VisitedNodes):
          for node, visited in s.nodes.items():
              if node in res: res[node] |= visited
              else: res[node] = visited
      else:
          for node in s: res[node] = {'up*', 'down*'}
      return res\<close>
\<close>

fun or_nodes :: "visited_arg \<Rightarrow> visited_nodes \<Rightarrow> visited_nodes" where
  "or_nodes (VN s) res =
     fold (\<lambda>(n, visited) res.
             case map_of res n of
               Some old \<Rightarrow> AList.update n (old \<union> visited) res
             | None \<Rightarrow> AList.update n visited res) s res"
| "or_nodes (Plain s) res = fold (\<lambda>n res. AList.update n {''up*'', ''down*''} res) s res"

text \<open>
  \<^verbatim>\<open>def __or__(self, s):
      res = {k: v.copy() for k, v in self._nodes.items()}
      return VisitedNodes(nodes_dict=self.__or_nodes(s, res))\<close>
  and \<open>__ior__\<close>, which stores the same dict back into \<open>self\<close>. The constructor replaces a
  falsy (empty) dict by a new empty dict.
\<close>

definition vn_or :: "visited_nodes \<Rightarrow> visited_arg \<Rightarrow> visited_nodes" where
  "vn_or self s = or_nodes s self"

definition vn_ior :: "visited_nodes \<Rightarrow> visited_arg \<Rightarrow> visited_nodes" where
  "vn_ior self s = or_nodes s self"

text \<open>
  \<^verbatim>\<open>def check_continue(visited_nodes, cur_visited_nodes, exclude_nodes, node, direction, idx):
      all_visited = visited_nodes | cur_visited_nodes
      if not isinstance(node, SensitiveToOrder):
          if direction == 'up' and all_visited.visited_down(node): return True
          if direction == 'down' and all_visited.visited_up(node): return True
      if all_visited.visited_direction(direction, idx, node): raise CantContinueError()
      if node in exclude_nodes: raise CantContinueError()
      return False\<close>
  \<open>Inr True\<close> is "skip", \<open>Inr False\<close> is "visit".
\<close>

definition check_continue ::
  "visited_nodes \<Rightarrow> visited_nodes \<Rightarrow> node set \<Rightarrow> node \<Rightarrow> string \<Rightarrow> nat \<Rightarrow> error + bool" where
  "check_continue visited_nodes cur_visited_nodes exclude_nodes n direction idx =
     (let all_visited = vn_or visited_nodes (VN cur_visited_nodes) in
      if \<not> sensitive_to_order n \<and> direction = ''up'' \<and> visited_down all_visited n None
        then Inr True
      else if \<not> sensitive_to_order n \<and> direction = ''down'' \<and> visited_up all_visited n None
        then Inr True
      else if visited_direction all_visited direction idx n then Inl CantContinueError
      else if n \<in> exclude_nodes then Inl CantContinueError
      else Inr False)"

text \<open>
  The LayoutFlexible terminals of the specification: a Constant, an Input or Output
  without \<open>fixed_order\<close>, a FullyConnected whose \<open>batch_size\<close> is not above 1.
\<close>

definition layout_flexible_terminal :: "node \<Rightarrow> bool" where
  "layout_flexible_terminal n =
     (case kind n of
        ConstantInput \<Rightarrow> True
      | Input fixed_order \<Rightarrow> \<not> fixed_order
      | Output fixed_order \<Rightarrow> \<not> fixed_order
      | Fc batch_size \<Rightarrow> \<not> batch_size > 1
      | _ \<Rightarrow> False)"

text \<open>Concrete nodes used to evaluate the definitions.\<close>

definition const_node :: node where
  "const_node = \<lparr>name = ''const'', kind = ConstantInput, sensitive_to_order = False,
     broadcastable = False, step_idx = 0, in_dims = [], out_dims = [PyList [8, 3]]\<rparr>"

definition conv_node :: node where
  "conv_node = \<lparr>name = ''conv'', kind = Other, sensitive_to_order = True,
     broadcastable = False, step_idx = 1, in_dims = [PyList [1, 3, 4, 5]], out_dims = [PyList [1, 8, 4, 5]]\<rparr>"

declare or_nodes.simps [simp del]

section \<open>Graph, history and actions\<close>

text \<open>
  An edge \<open>(from_node, from_idx, to_node, to_idx)\<close> and the graph container. The container
  class is outside this file; the graph is the list of its nodes and the list of its
  edges, and the quantization side table maps a node to an opaque record number.
\<close>

record edge =
  from_node :: node
  from_idx :: nat
  to_node :: node
  to_idx :: nat

record graph =
  nodes :: "node list"
  edges :: "edge list"
  quantization :: "(node \<Rightarrow> nat option) option"

text \<open>
  Modelled from the spec: the graph container's \<open>in_edges\<close>, \<open>out_edges\<close>,
  \<open>indexed_in_edges\<close>, \<open>nodes(node_classes=...)\<close> and \<open>remove_and_reconnect\<close> ("node/edge
  iteration, neighbour lookup by edge index, and structural mutation"; a removal
  "removes the node and reconnects its single input to its consumer(s)").
\<close>

definition in_edges :: "graph \<Rightarrow> node \<Rightarrow> edge list" where
  "in_edges G n = filter (\<lambda>e. to_node e = n) (edges G)"

definition out_edges :: "graph \<Rightarrow> node \<Rightarrow> edge list" where
  "out_edges G n = filter (\<lambda>e. from_node e = n) (edges G)"

definition indexed_in_edge :: "graph \<Rightarrow> node \<Rightarrow> nat \<Rightarrow> error + edge" where
  "indexed_in_edge G n idx =
     (case filter (\<lambda>e. to_idx e = idx) (in_edges G n) of
        [] \<Rightarrow> Inl IndexError
      | e # _ \<Rightarrow> Inr e)"

definition nodes_of_class :: "graph \<Rightarrow> (kind \<Rightarrow> bool) \<Rightarrow> node list" where
  "nodes_of_class G cls = filter (\<lambda>n. cls (kind n)) (nodes G)"

definition remove_and_reconnect :: "graph \<Rightarrow> node \<Rightarrow> graph" where
  "remove_and_reconnect G n =
     G\<lparr>nodes := filter (\<lambda>m. m \<noteq> n) (nodes G),
       edges := filter (\<lambda>e. from_node e \<noteq> n \<and> to_node e \<noteq> n) (edges G)
                @ concat (map (\<lambda>i. map (\<lambda>out. \<lparr>from_node = from_node i, from_idx = from_idx i,
                                                 to_node = to_node out, to_idx = to_idx out\<rparr>)
                                         (out_edges G n))
                              (in_edges G n))\<rparr>"

text \<open>The class tests \<open>isinstance(node, TransposeParameters)\<close> and the like.\<close>

definition is_Transpose :: "kind \<Rightarrow> bool" where
  "is_Transpose k = (case k of Transpose _ \<Rightarrow> True | _ \<Rightarrow> False)"

definition is_Reshape :: "kind \<Rightarrow> bool" where
  "is_Reshape k = (case k of Reshape _ _ \<Rightarrow> True | _ \<Rightarrow> False)"

text \<open>
  \<^verbatim>\<open>class TransposeHistory(): def __init__(self, node, from_shape=None, transpose=None, to_shape=None)\<close>
  The fields carry the prefix \<open>h_\<close> here.
\<close>

record transpose_history =
  h_node :: node
  h_from_shape :: shape
  h_transpose :: "perm option"
  h_to_shape :: shape

text \<open>
  The actions the explorers create. The action classes are outside this file; each
  constructor here carries the arguments the explorers pass: the target node, then for
  \<open>DeleteTransposeAction\<close> the residual \<open>reshape\<close> (\<open>None\<close> also stands for \<open>False\<close>); for
  \<open>InsertTransposeAction\<close> and \<open>InsertReshapeAction\<close> the \<open>direction\<close>, \<open>idx\<close> and optional
  \<open>out_edge\<close>, then the permutation or the two shapes; for the reorder actions the
  history and the permutation (for \<open>ReorderLinearAction\<close> the side, \<open>''in''\<close> for
  \<open>in_from_history\<close> and \<open>''out''\<close> for \<open>out_from_history\<close>, the history and the
  quantization record).
\<close>

datatype action =
    DeleteTransposeAction node "(shape \<times> shape) option"
  | InsertTransposeAction node string nat "edge option" "perm option"
  | SetTransposeAction node perm
  | DeleteReshapeAction node
  | SetReshapeAction node "shape option" "shape option"
  | InsertReshapeAction node string nat "edge option" shape shape
  | ReorderConstantInput node "transpose_history list" "perm option"
  | ReorderInputDims node "transpose_history list" "perm option"
  | ReorderLinearAction node string "transpose_history list" "nat option"
  | SwitchBatchLinearAction node
  | TransposePad node "perm option" string
  | TransposeReverse node "perm option" string
  | TransposeSlidedSlice node "perm option" "shape option" string
  | EndActionUp node
  | EndActionDown node

definition is_DeleteTranspose :: "action \<Rightarrow> bool" where
  "is_DeleteTranspose a = (case a of DeleteTransposeAction _ _ \<Rightarrow> True | _ \<Rightarrow> False)"

definition is_InsertTranspose :: "action \<Rightarrow> bool" where
  "is_InsertTranspose a = (case a of InsertTransposeAction _ _ _ _ _ \<Rightarrow> True | _ \<Rightarrow> False)"

section \<open>Cleanup: remove\_silly\_reshapes\<close>

text \<open>
  \<^verbatim>\<open>def remove_silly_reshapes(G):
      silly_reshapes = [node for node in G.nodes(node_classes=ReshapeParameters)
                        if tuple(node.old_shape.shape) == tuple(node.shape.shape)]
      for reshape in silly_reshapes:
          G.remove_and_reconnect(reshape, edge_class=NNEdge)\<close>
\<close>

definition silly :: "node \<Rightarrow> bool" where
  "silly n =
     (case kind n of Reshape old_shape shape \<Rightarrow> items old_shape = items shape | _ \<Rightarrow> False)"

definition remove_silly_reshapes :: "graph \<Rightarrow> graph" where
  "remove_silly_reshapes G =
     (let silly_reshapes = filter silly (nodes_of_class G is_Reshape)
      in fold (\<lambda>reshape G. remove_and_reconnect G reshape) silly_reshapes G)"

section \<open>Scoring of a direction\<close>

text \<open>
  \<^verbatim>\<open>def count_eliminated(actions):
      if actions is None: return -1
      deleted = sum(1 for action in actions if isinstance(action, DeleteTransposeAction))
      added = sum(1 for action in actions if isinstance(action, InsertTransposeAction))
      return deleted - added\<close>
\<close>

definition count_eliminated :: "action list option \<Rightarrow> int" where
  "count_eliminated actions =
     (case actions of
        None \<Rightarrow> - 1
      | Some acts \<Rightarrow>
          (let deleted = sum_list (map (\<lambda>action. 1) (filter is_DeleteTranspose acts));
               added = sum_list (map (\<lambda>action. 1) (filter is_InsertTranspose acts))
           in deleted - added))"

text \<open>
  The errors of Python are the left summand; \<open>None\<close> is a loop that does not return.
\<close>

type_synonym 'a res = "(error + 'a) option"

definition ret :: "'a \<Rightarrow> 'a res" where
  "ret x = Some (Inr x)"

definition raise :: "error \<Rightarrow> 'a res" where
  "raise e = Some (Inl e)"

definition and_then :: "'a res \<Rightarrow> ('a \<Rightarrow> 'b res) \<Rightarrow> 'b res" where
  "and_then m f = (case m of None \<Rightarrow> None | Some (Inl e) \<Rightarrow> Some (Inl e) | Some (Inr x) \<Rightarrow> f x)"

text \<open>
  \<^verbatim>\<open>while isinstance(edge.from_node, TransposeParameters):
      edge = G.in_edges(edge.from_node)[0]\<close>
  The loop of \<open>insert_step_idx\<close>; it does not return on a cycle of transposes.
\<close>

partial_function (option) skip_transposes :: "graph \<Rightarrow> edge \<Rightarrow> (error + edge) option" where
  [code]: "skip_transposes G e =
     (if is_Transpose (kind (from_node e))
      then (case in_edges G (from_node e) of
              [] \<Rightarrow> Some (Inl IndexError)
            | e' # _ \<Rightarrow> skip_transposes G e')
      else Some (Inr e))"

text \<open>
  \<^verbatim>\<open>def insert_step_idx(G, action):
      if action.direction == "in":
          edge = G.indexed_in_edges(action.node)[action.idx]
          while ...
          return edge.from_node.step_idx
      else:
          return action.node.step_idx\<close>
  It is called on \<open>InsertTransposeAction\<close>s only.
\<close>

definition insert_step_idx :: "graph \<Rightarrow> action \<Rightarrow> int res" where
  "insert_step_idx G a =
     (case a of
        InsertTransposeAction n direction idx out_edge tp \<Rightarrow>
          (if direction = ''in''
           then (case indexed_in_edge G n idx of
                   Inl err \<Rightarrow> raise err
                 | Inr e \<Rightarrow> and_then (skip_transposes G e) (\<lambda>e'. ret (step_idx (from_node e'))))
           else ret (step_idx n))
      | _ \<Rightarrow> raise AttributeError)"

text \<open>
  \<^verbatim>\<open>def delete_step_idx(G, action):
      return G.in_edges(action.node)[0].from_node.step_idx\<close>
\<close>

definition delete_step_idx :: "graph \<Rightarrow> action \<Rightarrow> int res" where
  "delete_step_idx G a =
     (case a of
        DeleteTransposeAction n reshape \<Rightarrow>
          (case in_edges G n of [] \<Rightarrow> raise IndexError | e # _ \<Rightarrow> ret (step_idx (from_node e)))
      | _ \<Rightarrow> raise AttributeError)"

text \<open>\<open>sum(f(action) for action in actions)\<close>, evaluated from left to right.\<close>

fun sum_res :: "('a \<Rightarrow> int res) \<Rightarrow> 'a list \<Rightarrow> int res" where
  "sum_res f [] = ret 0"
| "sum_res f (a # as) = and_then (f a) (\<lambda>x. and_then (sum_res f as) (\<lambda>s. ret (x + s)))"

text \<open>
  \<^verbatim>\<open>def transpose_moved(G, actions):
      if actions is None: return False
      insert_steps = sum(insert_step_idx(G, action)
                         for action in actions if isinstance(action, InsertTransposeAction))
      delete_steps = sum(delete_step_idx(G, action)
                         for action in actions if isinstance(action, DeleteTransposeAction))
      return insert_steps > delete_steps\<close>
\<close>

definition transpose_moved :: "graph \<Rightarrow> action list option \<Rightarrow> bool res" where
  "transpose_moved G actions =
     (case actions of
        None \<Rightarrow> ret False
      | Some acts \<Rightarrow>
          and_then (sum_res (insert_step_idx G) (filter is_InsertTranspose acts)) (\<lambda>insert_steps.
          and_then (sum_res (delete_step_idx G) (filter is_DeleteTranspose acts)) (\<lambda>delete_steps.
          ret (insert_steps > delete_steps))))"

text \<open>
  The evaluation of the two results in the driver (lines 986 to 1011):
  \<^verbatim>\<open>up_count = count_eliminated(cur_actions_up)
  down_count = count_eliminated(cur_actions_down)
  if up_count > 0 and up_count >= down_count: ... commit cur_actions_up
  elif down_count > 0 or (down_count == 0 and transpose_moved(G, cur_actions_down)):
      ... commit cur_actions_down
  else: info(f'no elimination for {transpose_node.name} found')\<close>
\<close>

datatype choice = CommitUp | CommitDown | NoCommit

definition evaluate_elimination ::
  "graph \<Rightarrow> action list option \<Rightarrow> action list option \<Rightarrow> choice res" where
  "evaluate_elimination G cur_actions_up cur_actions_down =
     (let up_count = count_eliminated cur_actions_up;
          down_count = count_eliminated cur_actions_down
      in if up_count > 0 \<and> up_count \<ge> down_count then ret CommitUp
         else if down_count > 0 then ret CommitDown
         else if down_count = 0
           then and_then (transpose_moved G cur_actions_down)
                  (\<lambda>moved. if moved then ret CommitDown else ret NoCommit)
         else ret NoCommit)"

section \<open>The explorers\<close>

text \<open>
  The functions this file imports from \<open>transpose_helpers\<close> and
  \<open>utils.compatible_transposes\<close>, the methods of \<open>Dim\<close> that \<open>requires_reshape\<close> calls, and
  the graph operations that execute an action and infer the dimensions again are
  defined outside this file. They are the fields of a record, and every definition
  below takes the record as its first argument. \<open>apply_transpose\<close> takes the elements
  first and the permutation second, as in the source; \<open>reverse_reshape\<close> takes
  \<open>going_up\<close> last; \<open>reverses_transpose_up\<close> returns the pair
  \<open>(reverses_transpose, old_shape)\<close>.
\<close>

record helpers =
  reverse_transpose :: "perm option \<Rightarrow> perm option"
  apply_transpose :: "seq \<Rightarrow> perm option \<Rightarrow> seq"
  transpose_does_nothing :: "perm option \<Rightarrow> shape \<Rightarrow> bool"
  identity_transpose :: "perm option \<Rightarrow> bool"
  reverses_transpose_up :: "perm \<Rightarrow> perm \<Rightarrow> shape \<Rightarrow> bool \<times> shape option"
  reverse_reshape :: "perm \<Rightarrow> shape \<Rightarrow> shape \<Rightarrow> bool \<Rightarrow> perm option \<times> shape option \<times> shape option"
  layout_shape :: "shape \<Rightarrow> shape"
  calc_transpose :: "shape \<Rightarrow> perm \<Rightarrow> shape"
  execute :: "action \<Rightarrow> graph \<Rightarrow> graph"
  add_dimensions :: "graph \<Rightarrow> graph"

text \<open>Indexing a list, and \<open>xs[-1]\<close>.\<close>

definition nth_res :: "'a list \<Rightarrow> nat \<Rightarrow> 'a res" where
  "nth_res xs i = (if i < length xs then ret (xs ! i) else raise IndexError)"

definition last_res :: "'a list \<Rightarrow> 'a res" where
  "last_res xs = (if xs = [] then raise IndexError else ret (last xs))"

text \<open>A \<open>for\<close> loop over a list that updates its variables and may raise.\<close>

fun for_each :: "('a \<Rightarrow> 's \<Rightarrow> 's res) \<Rightarrow> 'a list \<Rightarrow> 's \<Rightarrow> 's res" where
  "for_each f [] s = ret s"
| "for_each f (x # xs) s = and_then (f x s) (for_each f xs)"

text \<open>
  \<^verbatim>\<open>def requires_reshape(trans1, trans2, dim):
      if (tuple(dim.shape) != tuple(dim.layout_shape) and
              dim.layout_shape == dim.calc_transpose(trans1).calc_transpose(trans2).layout_shape):
          from_shape = dim.calc_transpose(trans1)
          to_shape = dim.calc_transpose(trans2)
          if from_shape.shape != to_shape.shape:
              return (from_shape, to_shape)
      return False\<close>
\<close>

definition requires_reshape :: "helpers \<Rightarrow> perm \<Rightarrow> perm \<Rightarrow> shape \<Rightarrow> (shape \<times> shape) option" where
  "requires_reshape H trans1 trans2 dim =
     (if items dim \<noteq> items (layout_shape H dim)
         \<and> layout_shape H dim
             = layout_shape H (calc_transpose H (calc_transpose H dim trans1) trans2)
      then (let from_shape = calc_transpose H dim trans1;
                to_shape = calc_transpose H dim trans2
            in if from_shape \<noteq> to_shape then Some (from_shape, to_shape) else None)
      else None)"

text \<open>
  \<^verbatim>\<open>def check_for_null_transpose(node, transpose):
      if transpose is None: raise CantContinueError(f"can't continue at {node.name}")\<close>
  The model returns the permutation that is not \<open>None\<close>.
\<close>

definition check_for_null_transpose :: "node \<Rightarrow> perm option \<Rightarrow> perm res" where
  "check_for_null_transpose n tp = (case tp of None \<Rightarrow> raise CantContinueError | Some p \<Rightarrow> ret p)"

text \<open>
  \<^verbatim>\<open>def compute_max_shape(dims):
      if len(dims) == 1: return dims[0]
      shapes = [dim.shape for dim in dims]
      return [max(dims) for dims in zip(*shapes)]\<close>
\<close>

definition zip_star :: "'a list list \<Rightarrow> 'a list list" where
  "zip_star shapes =
     (if shapes = [] then []
      else map (\<lambda>i. map (\<lambda>s. s ! i) shapes) [0..<Min (set (map length shapes))])"

definition compute_max_shape :: "shape list \<Rightarrow> shape" where
  "compute_max_shape dims =
     (if length dims = 1 then dims ! 0
      else PyList (map (\<lambda>ds. fold max (tl ds) (hd ds)) (zip_star (map items dims))))"

text \<open>\<open>G.quantization and G.quantization[NodeId(node)]\<close>\<close>

definition qrec_of :: "graph \<Rightarrow> node \<Rightarrow> nat option res" where
  "qrec_of G n =
     (case quantization G of
        None \<Rightarrow> ret None
      | Some q \<Rightarrow> (case q n of None \<Rightarrow> raise KeyError | Some r \<Rightarrow> ret (Some r)))"

text \<open>
  \<open>search_down\<close> and \<open>search_up\<close> call each other; the recursion follows the graph and
  has no bound in the source. The model gives the recursion a depth: \<open>search\<close> with
  depth 0 is \<open>None\<close>, and each call of an explorer uses one unit. The bodies take the
  explorers of the next depth as the argument \<open>rec\<close>.
\<close>

datatype call =
    Down node "node set" visited_nodes edge "transpose_history list"
  | Up node "node set" visited_nodes edge "transpose_history list"

type_synonym found = "action list \<times> visited_arg"

text \<open>
  \<^verbatim>\<open>def continue_down(G, node, exclude_nodes, visited_nodes, cur_visited_nodes, cur_actions,
                    transpose_history, transpose):
      for edge in G.out_edges(node.name):
          if check_continue(visited_nodes, cur_visited_nodes, exclude_nodes,
                            edge.to_node, 'down', edge.to_idx):
              continue
          new_actions, visited_down_nodes = search_down(
              G, edge.to_node, exclude_nodes, visited_nodes | cur_visited_nodes, edge,
              transpose_history.copy())
          cur_visited_nodes |= visited_down_nodes
          cur_actions += new_actions
      return cur_actions, cur_visited_nodes\<close>
  The source does not use the last parameter, \<open>transpose\<close>; the model leaves it out.
\<close>

definition continue_down ::
  "graph \<Rightarrow> (call \<Rightarrow> found res) \<Rightarrow> node \<Rightarrow> node set \<Rightarrow> visited_nodes \<Rightarrow> visited_nodes
     \<Rightarrow> action list \<Rightarrow> transpose_history list \<Rightarrow> found res" where
  "continue_down G rec n exclude_nodes visited_nodes cur_visited_nodes cur_actions
       transpose_history =
     and_then
       (for_each (\<lambda>e (cur_actions, cur_visited_nodes).
            case check_continue visited_nodes cur_visited_nodes exclude_nodes
                   (to_node e) ''down'' (to_idx e) of
              Inl err \<Rightarrow> raise err
            | Inr True \<Rightarrow> ret (cur_actions, cur_visited_nodes)
            | Inr False \<Rightarrow>
                and_then (rec (Down (to_node e) exclude_nodes
                                 (vn_or visited_nodes (VN cur_visited_nodes)) e transpose_history))
                  (\<lambda>(new_actions, visited_down_nodes).
                     ret (cur_actions @ new_actions, vn_ior cur_visited_nodes visited_down_nodes)))
          (out_edges G n) (cur_actions, cur_visited_nodes))
       (\<lambda>(cur_actions, cur_visited_nodes). ret (cur_actions, VN cur_visited_nodes))"

text \<open>
  The reshape that a broadcasted input needs (the same lines in \<open>search_down\<close> and
  \<open>continue_up\<close>):
  \<^verbatim>\<open>b_axes = broadcasted_axes(edge_in_shape, max_shape)
  transpose_without_broadcast = strip_axes_from_transpose(transpose, b_axes)
  from_shape = apply_transpose(edge_in_shape, reverse_transpose(transpose_without_broadcast))
  broadcasted_shape = ([1] * len(b_axes)) + list(edge_in_shape)
  to_shape = strip_leading_dim(apply_transpose(broadcasted_shape, reverse_transpose(transpose)))\<close>
  \<open>transpose_without_broadcast\<close> and \<open>to_shape\<close> are tuples, \<open>broadcasted_shape\<close> is a list,
  and \<open>from_shape\<close> is what \<open>apply_transpose\<close> returns.
\<close>

definition broadcast_shapes ::
  "helpers \<Rightarrow> shape \<Rightarrow> shape \<Rightarrow> perm \<Rightarrow> (perm \<times> shape \<times> shape \<times> shape) res" where
  "broadcast_shapes H edge_in_shape max_shape tp =
     (let b_axes = broadcasted_axes (items edge_in_shape) (items max_shape);
          transpose_without_broadcast = PyTuple (strip_axes_from_transpose (items tp) b_axes);
          from_shape = apply_transpose H edge_in_shape
                         (reverse_transpose H (Some transpose_without_broadcast));
          broadcasted_shape = PyList (replicate (length b_axes) 1 @ items edge_in_shape)
      in case strip_leading_dim
                (apply_transpose H broadcasted_shape (reverse_transpose H (Some tp))) 1 of
           Inl err \<Rightarrow> raise err
         | Inr to_shape \<Rightarrow>
             ret (transpose_without_broadcast, from_shape, broadcasted_shape, to_shape))"

text \<open>
  Lines 307 to 323 of \<open>search_down\<close>: arriving on a broadcasted input.
  \<^verbatim>\<open>if isinstance(node, (Broadcastable, PowOpParameters)) and len(in_shape) != node.out_dims[0].rank:
      check_for_null_transpose(node, transpose)
      max_shape = compute_max_shape(node.out_dims)
      b_axes = broadcasted_axes(in_shape, max_shape)
      new_transpose = expand_axes_in_transpose(transpose, len(b_axes))
      new_shape = tuple(([1] * len(b_axes)) + in_shape)
      transpose_history += [TransposeHistory(node, in_shape, new_transpose, new_shape)]
      transpose = new_transpose
      in_shape = new_shape\<close>
  \<open>[1] * n + in_shape\<close> is a \<open>TypeError\<close> when \<open>in_shape\<close> is a tuple.
\<close>

definition down_broadcast ::
  "node \<Rightarrow> perm option \<Rightarrow> shape \<Rightarrow> transpose_history list
     \<Rightarrow> (perm option \<times> shape \<times> transpose_history list) res" where
  "down_broadcast n tp in_shape transpose_history =
     (if broadcastable n \<or> kind n = PowOp
      then and_then (nth_res (out_dims n) 0) (\<lambda>out0.
        if length (items in_shape) \<noteq> length (items out0)
        then and_then (check_for_null_transpose n tp) (\<lambda>p.
          let max_shape = compute_max_shape (out_dims n);
              b_axes = broadcasted_axes (items in_shape) (items max_shape);
              new_transpose = PyTuple (expand_axes_in_transpose (items p) (int (length b_axes)))
          in case in_shape of
               PyTuple xs \<Rightarrow> raise TypeError
             | PyList xs \<Rightarrow>
                 (let new_shape = PyTuple (replicate (length b_axes) 1 @ xs)
                  in ret (Some new_transpose, new_shape,
                          transpose_history @ [\<lparr>h_node = n, h_from_shape = in_shape,
                             h_transpose = Some new_transpose, h_to_shape = new_shape\<rparr>])))
        else ret (tp, in_shape, transpose_history))
      else ret (tp, in_shape, transpose_history))"

text \<open>
  Lines 325 to 369 of \<open>search_down\<close>: the other inputs of a Concat, a BinaryOp or a
  Broadcastable node are explored upwards. \<open>set(G.in_edges(node.name)) - {in_edge}\<close> is
  iterated in the order of the edge list.
\<close>

definition down_explore_up ::
  "helpers \<Rightarrow> graph \<Rightarrow> (call \<Rightarrow> found res) \<Rightarrow> node \<Rightarrow> node set \<Rightarrow> visited_nodes \<Rightarrow> edge
     \<Rightarrow> perm option \<Rightarrow> visited_nodes \<Rightarrow> (action list \<times> visited_nodes) res" where
  "down_explore_up H G rec n exclude_nodes visited_nodes in_edge tp cur_visited_nodes =
     (if kind n = Concat \<or> kind n = BinaryOp \<or> broadcastable n
      then and_then (check_for_null_transpose n tp) (\<lambda>p.
        let max_shape = compute_max_shape (out_dims n) in
        for_each (\<lambda>e (cur_actions, cur_visited_nodes).
            case check_continue visited_nodes cur_visited_nodes exclude_nodes
                   (from_node e) ''up'' (from_idx e) of
              Inl err \<Rightarrow> raise err
            | Inr True \<Rightarrow> ret (cur_actions, cur_visited_nodes)
            | Inr False \<Rightarrow>
                and_then (nth_res (in_dims n) (to_idx e)) (\<lambda>edge_in_shape.
                and_then
                  (if length (items edge_in_shape) \<noteq> length (items max_shape)
                   then and_then (broadcast_shapes H edge_in_shape max_shape p)
                          (\<lambda>(transpose_without_broadcast, from_shape, broadcasted_shape, to_shape).
                             ret (if from_shape \<noteq> to_shape
                                  then cur_actions @ [InsertReshapeAction n ''in'' (to_idx e) None
                                                        from_shape to_shape]
                                  else cur_actions,
                                  transpose_without_broadcast))
                   else ret (cur_actions, p))
                  (\<lambda>(cur_actions, new_transpose).
                let new_history = [\<lparr>h_node = n, h_from_shape = edge_in_shape,
                                     h_transpose = Some new_transpose, h_to_shape = edge_in_shape\<rparr>]
                in and_then (rec (Up (from_node e) exclude_nodes
                                    (vn_or visited_nodes (VN cur_visited_nodes)) e new_history))
                     (\<lambda>(new_actions, visited_up_nodes).
                        ret (cur_actions @ new_actions, vn_ior cur_visited_nodes visited_up_nodes)))))
          (filter (\<lambda>e. e \<noteq> in_edge) (remdups (in_edges G n))) ([], cur_visited_nodes))
      else ret ([], cur_visited_nodes))"

text \<open>
  The rest of \<open>search_down\<close> (lines 371 to 508), by the class of the node: a linear
  layer, a Transpose and an Output end the branch; a StridedSlice that reshapes, a
  transient operator and a Reshape rewrite the permutation and go on with
  \<open>continue_down\<close>, as every other node does.
\<close>

definition down_linear ::
  "graph \<Rightarrow> node \<Rightarrow> int \<Rightarrow> edge \<Rightarrow> perm option \<Rightarrow> transpose_history list \<Rightarrow> action list
     \<Rightarrow> visited_nodes \<Rightarrow> found res" where
  "down_linear G n batch_size in_edge tp transpose_history cur_actions cur_visited_nodes =
     (if batch_size > 1
      then ret ([InsertTransposeAction n ''in'' (to_idx in_edge) None tp, EndActionDown n],
                VN cur_visited_nodes)
      else and_then (qrec_of G n) (\<lambda>qrec.
             ret (cur_actions @ [ReorderLinearAction n ''in'' transpose_history qrec,
                                 EndActionDown n], VN cur_visited_nodes)))"

definition down_transpose ::
  "helpers \<Rightarrow> node \<Rightarrow> perm \<Rightarrow> perm option \<Rightarrow> visited_nodes \<Rightarrow> found res" where
  "down_transpose H n node_transpose tp cur_visited_nodes =
     and_then (check_for_null_transpose n tp) (\<lambda>p.
     and_then (nth_res (out_dims n) 0) (\<lambda>out0.
       case reverses_transpose_up H p node_transpose out0 of
         (reverses_transpose, old_shape) \<Rightarrow>
           if reverses_transpose
           then (let reshape = (case old_shape of
                                  None \<Rightarrow> None
                                | Some s \<Rightarrow> if items s \<noteq> [] then Some (s, out0) else None)
                 in ret ([DeleteTransposeAction n reshape, EndActionDown n], VN cur_visited_nodes))
           else (let new_transpose = apply_transpose H p (Some node_transpose)
                 in ret ([SetTransposeAction n new_transpose, EndActionDown n],
                         VN cur_visited_nodes))))"

definition down_output ::
  "node \<Rightarrow> bool \<Rightarrow> edge \<Rightarrow> perm option \<Rightarrow> visited_nodes \<Rightarrow> found res" where
  "down_output n fixed_order in_edge tp cur_visited_nodes =
     and_then (check_for_null_transpose n tp) (\<lambda>p.
       if fixed_order
       then ret ([InsertTransposeAction n ''in'' (to_idx in_edge) None (Some p), EndActionDown n],
                 VN cur_visited_nodes)
       else ret ([EndActionDown n], VN cur_visited_nodes))"

definition down_slice_reshape ::
  "helpers \<Rightarrow> graph \<Rightarrow> (call \<Rightarrow> found res) \<Rightarrow> node \<Rightarrow> shape \<Rightarrow> shape \<Rightarrow> node set \<Rightarrow> visited_nodes
     \<Rightarrow> edge \<Rightarrow> perm option \<Rightarrow> transpose_history list \<Rightarrow> action list \<Rightarrow> visited_nodes
     \<Rightarrow> found res" where
  "down_slice_reshape H G rec n slice_shape out_shape exclude_nodes visited_nodes in_edge tp
       transpose_history cur_actions cur_visited_nodes =
     and_then (check_for_null_transpose n tp) (\<lambda>p.
       case reverse_reshape H p slice_shape out_shape False of
         (new_transpose, from_shape, to_shape) \<Rightarrow>
           if new_transpose = None
           then ret ([InsertTransposeAction n ''in'' (to_idx in_edge) None (Some p),
                      EndActionDown n], VN cur_visited_nodes)
           else (let cur_actions = cur_actions @ [TransposeSlidedSlice n (Some p) to_shape ''down'']
                 in if identity_transpose H new_transpose
                    then ret (cur_actions @ [EndActionDown n], VN cur_visited_nodes)
                    else continue_down G rec n exclude_nodes visited_nodes cur_visited_nodes
                           cur_actions
                           (transpose_history @ [\<lparr>h_node = n, h_from_shape = slice_shape,
                              h_transpose = new_transpose, h_to_shape = out_shape\<rparr>])))"

definition down_transient ::
  "helpers \<Rightarrow> graph \<Rightarrow> (call \<Rightarrow> found res) \<Rightarrow> node \<Rightarrow> (perm option \<Rightarrow> action) \<Rightarrow> node set
     \<Rightarrow> visited_nodes \<Rightarrow> perm option \<Rightarrow> transpose_history list \<Rightarrow> action list \<Rightarrow> visited_nodes
     \<Rightarrow> found res" where
  "down_transient H G rec n transient_action exclude_nodes visited_nodes tp transpose_history
       cur_actions cur_visited_nodes =
     and_then (check_for_null_transpose n tp) (\<lambda>p.
       continue_down G rec n exclude_nodes visited_nodes cur_visited_nodes
         (cur_actions @ [transient_action (reverse_transpose H (Some p))]) transpose_history)"

definition rewrite_reshape :: "node \<Rightarrow> shape option \<Rightarrow> shape option \<Rightarrow> action" where
  "rewrite_reshape n from_shape to_shape =
     (if from_shape = None \<or> to_shape = None \<or> from_shape \<noteq> to_shape
      then SetReshapeAction n from_shape to_shape
      else DeleteReshapeAction n)"

definition down_reshape ::
  "helpers \<Rightarrow> graph \<Rightarrow> (call \<Rightarrow> found res) \<Rightarrow> node \<Rightarrow> shape \<Rightarrow> shape \<Rightarrow> node set \<Rightarrow> visited_nodes
     \<Rightarrow> edge \<Rightarrow> perm option \<Rightarrow> transpose_history list \<Rightarrow> action list \<Rightarrow> visited_nodes
     \<Rightarrow> found res" where
  "down_reshape H G rec n old_shape shape exclude_nodes visited_nodes in_edge tp
       transpose_history cur_actions cur_visited_nodes =
     and_then (check_for_null_transpose n tp) (\<lambda>p.
       case reverse_reshape H p old_shape shape False of
         (new_transpose, from_shape, to_shape) \<Rightarrow>
           if new_transpose = None \<and> length (items shape) > 1
           then ret ([InsertTransposeAction n ''in'' (to_idx in_edge) None (Some p),
                      EndActionDown n], VN cur_visited_nodes)
           else (let cur_actions = cur_actions @ [rewrite_reshape n from_shape to_shape]
                 in if identity_transpose H new_transpose
                    then ret (cur_actions @ [EndActionDown n], VN cur_visited_nodes)
                    else (let transpose_history =
                                transpose_history @ [\<lparr>h_node = n, h_from_shape = old_shape,
                                   h_transpose = new_transpose, h_to_shape = shape\<rparr>]
                          in if new_transpose = None
                             then (case continue_down G rec n exclude_nodes visited_nodes
                                          cur_visited_nodes cur_actions transpose_history of
                                     Some (Inl CantContinueError) \<Rightarrow>
                                       ret ([InsertTransposeAction n ''in'' (to_idx in_edge) None
                                               (Some p), EndActionDown n], VN cur_visited_nodes)
                                   | r \<Rightarrow> r)
                             else continue_down G rec n exclude_nodes visited_nodes
                                    cur_visited_nodes cur_actions transpose_history)))"

definition down_dispatch ::
  "helpers \<Rightarrow> graph \<Rightarrow> (call \<Rightarrow> found res) \<Rightarrow> node \<Rightarrow> node set \<Rightarrow> visited_nodes \<Rightarrow> edge
     \<Rightarrow> perm option \<Rightarrow> transpose_history list \<Rightarrow> action list \<Rightarrow> visited_nodes \<Rightarrow> found res" where
  "down_dispatch H G rec n exclude_nodes visited_nodes in_edge tp transpose_history
       cur_actions cur_visited_nodes =
     (case kind n of
        Fc batch_size \<Rightarrow>
          down_linear G n batch_size in_edge tp transpose_history cur_actions cur_visited_nodes
      | LinearFusion filters \<Rightarrow>
          (case filters of
             [] \<Rightarrow> raise IndexError
           | batch_size # _ \<Rightarrow>
               down_linear G n batch_size in_edge tp transpose_history cur_actions
                 cur_visited_nodes)
      | Transpose node_transpose \<Rightarrow> down_transpose H n node_transpose tp cur_visited_nodes
      | Output fixed_order \<Rightarrow> down_output n fixed_order in_edge tp cur_visited_nodes
      | StridedSlice slice_shape out_shape changes_shape \<Rightarrow>
          (if slice_shape \<noteq> out_shape
           then down_slice_reshape H G rec n slice_shape out_shape exclude_nodes visited_nodes
                  in_edge tp transpose_history cur_actions cur_visited_nodes
           else down_transient H G rec n (\<lambda>t. TransposeSlidedSlice n t None ''down'')
                  exclude_nodes visited_nodes tp transpose_history cur_actions cur_visited_nodes)
      | Pad \<Rightarrow>
          down_transient H G rec n (\<lambda>t. TransposePad n t ''down'')
            exclude_nodes visited_nodes tp transpose_history cur_actions cur_visited_nodes
      | Reverse \<Rightarrow>
          down_transient H G rec n (\<lambda>t. TransposeReverse n t ''down'')
            exclude_nodes visited_nodes tp transpose_history cur_actions cur_visited_nodes
      | Reshape old_shape shape \<Rightarrow>
          down_reshape H G rec n old_shape shape exclude_nodes visited_nodes in_edge tp
            transpose_history cur_actions cur_visited_nodes
      | _ \<Rightarrow>
          continue_down G rec n exclude_nodes visited_nodes cur_visited_nodes cur_actions
            transpose_history)"

text \<open>
  \<open>search_down\<close>, lines 258 to 304, then the three parts above. The single-axis rule
  returns an empty list in place of a \<open>VisitedNodes\<close>.
\<close>

definition search_down_body ::
  "helpers \<Rightarrow> graph \<Rightarrow> (call \<Rightarrow> found res) \<Rightarrow> node \<Rightarrow> node set \<Rightarrow> visited_nodes \<Rightarrow> edge
     \<Rightarrow> transpose_history list \<Rightarrow> found res" where
  "search_down_body H G rec n exclude_nodes visited_nodes in_edge transpose_history =
     (let cur_visited_nodes = visit_down [] n (to_idx in_edge) in
      and_then (last_res transpose_history) (\<lambda>h.
      let tp = h_transpose h in
      and_then (nth_res (in_dims n) (to_idx in_edge)) (\<lambda>in_shape.
        if (case tp of None \<Rightarrow> False | Some p \<Rightarrow> length (items p) = 1)
          then ret ([EndActionDown n], Plain [])
        else if sensitive_to_order n
                \<and> transpose_does_nothing H (reverse_transpose H tp) in_shape
          then and_then (check_for_null_transpose n tp) (\<lambda>p.
                 let new_shape = apply_transpose H in_shape (reverse_transpose H tp) in
                 if new_shape = in_shape
                 then ret ([EndActionDown n], VN cur_visited_nodes)
                 else ret ([InsertReshapeAction n ''in'' (to_idx in_edge) None new_shape in_shape,
                            EndActionDown n], VN cur_visited_nodes))
        else if sensitive_to_order n
          then and_then (check_for_null_transpose n tp) (\<lambda>p.
                 ret ([InsertTransposeAction n ''in'' (to_idx in_edge) None (Some p),
                       EndActionDown n], VN cur_visited_nodes))
        else
          and_then (down_broadcast n tp in_shape transpose_history)
            (\<lambda>(tp, in_shape, transpose_history).
          and_then (down_explore_up H G rec n exclude_nodes visited_nodes in_edge tp
                      cur_visited_nodes)
            (\<lambda>(cur_actions, cur_visited_nodes).
          down_dispatch H G rec n exclude_nodes visited_nodes in_edge tp transpose_history
            cur_actions cur_visited_nodes)))))"

text \<open>
  \<^verbatim>\<open>def continue_up(G, node, exclude_nodes, visited_nodes, cur_visited_nodes, cur_actions,
                  transpose_history, transpose):
      for edge in G.in_edges(node.name):
          if check_continue(visited_nodes, cur_visited_nodes, exclude_nodes,
                            edge.from_node, 'up', edge.from_idx):
              continue
          edge_in_shape = node.in_dims[edge.to_idx].shape
          if isinstance(node, (Broadcastable, PowOpParameters)) and \
                  len(edge_in_shape) != node.out_dims[0].rank:
              ... (the broadcast reshape)
              if from_shape != to_shape:
                  cur_actions.append(InsertReshapeAction(node, direction='in', idx=edge.to_idx,
                                                         in_shape=from_shape, out_shape=to_shape))
                  extra_history = [TransposeHistory(node, broadcasted_shape,
                                                    transpose_without_broadcast, edge_in_shape)]
              else: extra_history = []
          else: extra_history = []
          new_actions, visited_up_nodes = search_up(
              G, edge.from_node, exclude_nodes, visited_nodes | cur_visited_nodes, edge,
              transpose_history + extra_history)
          cur_visited_nodes |= visited_up_nodes
          cur_actions += new_actions
      return cur_actions, cur_visited_nodes\<close>
  \<open>strip_axes_from_transpose\<close> iterates over the permutation, a \<open>TypeError\<close> when it is
  \<open>None\<close>.
\<close>

definition continue_up ::
  "helpers \<Rightarrow> graph \<Rightarrow> (call \<Rightarrow> found res) \<Rightarrow> node \<Rightarrow> node set \<Rightarrow> visited_nodes
     \<Rightarrow> visited_nodes \<Rightarrow> action list \<Rightarrow> transpose_history list \<Rightarrow> perm option \<Rightarrow> found res" where
  "continue_up H G rec n exclude_nodes visited_nodes cur_visited_nodes cur_actions
       transpose_history tp =
     and_then
       (for_each (\<lambda>e (cur_actions, cur_visited_nodes).
            case check_continue visited_nodes cur_visited_nodes exclude_nodes
                   (from_node e) ''up'' (from_idx e) of
              Inl err \<Rightarrow> raise err
            | Inr True \<Rightarrow> ret (cur_actions, cur_visited_nodes)
            | Inr False \<Rightarrow>
                and_then (nth_res (in_dims n) (to_idx e)) (\<lambda>edge_in_shape.
                and_then
                  (if broadcastable n \<or> kind n = PowOp
                   then and_then (nth_res (out_dims n) 0) (\<lambda>out0.
                     if length (items edge_in_shape) \<noteq> length (items out0)
                     then (case tp of
                             None \<Rightarrow> raise TypeError
                           | Some p \<Rightarrow>
                               and_then (broadcast_shapes H edge_in_shape
                                           (compute_max_shape (out_dims n)) p)
                                 (\<lambda>(transpose_without_broadcast, from_shape, broadcasted_shape,
                                    to_shape).
                                    if from_shape \<noteq> to_shape
                                    then ret (cur_actions @ [InsertReshapeAction n ''in'' (to_idx e)
                                                               None from_shape to_shape],
                                              [\<lparr>h_node = n, h_from_shape = broadcasted_shape,
                                                h_transpose = Some transpose_without_broadcast,
                                                h_to_shape = edge_in_shape\<rparr>])
                                    else ret (cur_actions, [])))
                     else ret (cur_actions, []))
                   else ret (cur_actions, []))
                  (\<lambda>(cur_actions, extra_history).
                and_then (rec (Up (from_node e) exclude_nodes
                                 (vn_or visited_nodes (VN cur_visited_nodes)) e
                                 (transpose_history @ extra_history)))
                  (\<lambda>(new_actions, visited_up_nodes).
                     ret (cur_actions @ new_actions, vn_ior cur_visited_nodes visited_up_nodes)))))
          (in_edges G n) (cur_actions, cur_visited_nodes))
       (\<lambda>(cur_actions, cur_visited_nodes). ret (cur_actions, VN cur_visited_nodes))"

text \<open>
  Lines 561 to 582 of \<open>search_up\<close>: the other out edges of the node are explored
  downwards.
  \<^verbatim>\<open>for edge in set(G.out_edges(node.name)) - {out_edge}:
      check_for_null_transpose(node, transpose)
      if check_continue(visited_nodes, cur_visited_nodes, exclude_nodes,
                        edge.to_node, 'down', edge.to_idx):
          continue
      new_actions, visited_down_nodes = search_down(
          G, edge.to_node, exclude_nodes, visited_nodes | cur_visited_nodes, edge,
          [TransposeHistory(node, node.out_dims[edge.from_idx], transpose,
                            apply_transpose(node.out_dims[edge.from_idx], transpose))])
      cur_visited_nodes |= visited_down_nodes
      cur_actions += new_actions\<close>
\<close>

definition up_explore_down ::
  "helpers \<Rightarrow> graph \<Rightarrow> (call \<Rightarrow> found res) \<Rightarrow> node \<Rightarrow> node set \<Rightarrow> visited_nodes \<Rightarrow> edge
     \<Rightarrow> perm option \<Rightarrow> visited_nodes \<Rightarrow> (action list \<times> visited_nodes) res" where
  "up_explore_down H G rec n exclude_nodes visited_nodes out_edge tp cur_visited_nodes =
     for_each (\<lambda>e (cur_actions, cur_visited_nodes).
         and_then (check_for_null_transpose n tp) (\<lambda>p.
         case check_continue visited_nodes cur_visited_nodes exclude_nodes
                (to_node e) ''down'' (to_idx e) of
           Inl err \<Rightarrow> raise err
         | Inr True \<Rightarrow> ret (cur_actions, cur_visited_nodes)
         | Inr False \<Rightarrow>
             and_then (nth_res (out_dims n) (from_idx e)) (\<lambda>out_dim.
             and_then (rec (Down (to_node e) exclude_nodes
                              (vn_or visited_nodes (VN cur_visited_nodes)) e
                              [\<lparr>h_node = n, h_from_shape = out_dim, h_transpose = Some p,
                                h_to_shape = apply_transpose H out_dim (Some p)\<rparr>]))
               (\<lambda>(new_actions, visited_down_nodes).
                  ret (cur_actions @ new_actions, vn_ior cur_visited_nodes visited_down_nodes)))))
       (filter (\<lambda>e. e \<noteq> out_edge) (remdups (out_edges G n))) ([], cur_visited_nodes)"

text \<open>
  Lines 586 to 605: a linear layer.
  \<^verbatim>\<open>if filter_node.batch_size > 1:
      if transpose == (1, 0):
          return cur_actions + [SwitchBatchLinearAction(node), EndActionUp(node)], cur_visited_nodes
      return [InsertTransposeAction(node, direction='out', idx=out_edge.from_idx,
                                    out_edge=out_edge, transpose=reverse_transpose(transpose)),
              EndActionUp(node)], cur_visited_nodes
  qrec = G.quantization and G.quantization[NodeId(node)]
  return cur_actions + [ReorderLinearAction.out_from_history(node, transpose_history, qrec),
                        EndActionUp(node)], cur_visited_nodes\<close>
  \<open>transpose == (1, 0)\<close> holds for the tuple \<open>(1, 0)\<close> only, not for the list \<open>[1, 0]\<close>.
\<close>

definition up_linear ::
  "helpers \<Rightarrow> graph \<Rightarrow> node \<Rightarrow> int \<Rightarrow> edge \<Rightarrow> perm option \<Rightarrow> transpose_history list \<Rightarrow> action list
     \<Rightarrow> visited_nodes \<Rightarrow> found res" where
  "up_linear H G n batch_size out_edge tp transpose_history cur_actions cur_visited_nodes =
     (if batch_size > 1
      then (if tp = Some (PyTuple [1, 0])
            then ret (cur_actions @ [SwitchBatchLinearAction n, EndActionUp n],
                      VN cur_visited_nodes)
            else ret ([InsertTransposeAction n ''out'' (from_idx out_edge) (Some out_edge)
                         (reverse_transpose H tp), EndActionUp n], VN cur_visited_nodes))
      else and_then (qrec_of G n) (\<lambda>qrec.
             ret (cur_actions @ [ReorderLinearAction n ''out'' transpose_history qrec,
                                 EndActionUp n], VN cur_visited_nodes)))"

text \<open>
  Lines 607 to 629: a Transpose. The test is \<open>tuple(node.transpose) == tuple(transpose)\<close>,
  on the elements. The branch that absorbs the permutation ends with \<open>EndActionDown\<close> in
  the source.
\<close>

definition up_transpose ::
  "helpers \<Rightarrow> node \<Rightarrow> perm \<Rightarrow> perm option \<Rightarrow> action list \<Rightarrow> visited_nodes \<Rightarrow> found res" where
  "up_transpose H n node_transpose tp cur_actions cur_visited_nodes =
     and_then (check_for_null_transpose n tp) (\<lambda>p.
       if items node_transpose = items p
       then and_then (nth_res (out_dims n) 0) (\<lambda>out0.
              let reshape = requires_reshape H node_transpose p out0
              in ret (cur_actions @ [DeleteTransposeAction n reshape, EndActionUp n],
                      VN cur_visited_nodes))
       else (let new_transpose = apply_transpose H node_transpose (reverse_transpose H (Some p))
             in ret ([SetTransposeAction n new_transpose, EndActionDown n],
                     VN cur_visited_nodes)))"

text \<open>Lines 631 to 655: an Input and a Constant.\<close>

definition up_input ::
  "helpers \<Rightarrow> node \<Rightarrow> bool \<Rightarrow> edge \<Rightarrow> perm option \<Rightarrow> transpose_history list \<Rightarrow> action list
     \<Rightarrow> visited_nodes \<Rightarrow> found res" where
  "up_input H n fixed_order out_edge tp transpose_history cur_actions cur_visited_nodes =
     and_then (check_for_null_transpose n tp) (\<lambda>p.
       if fixed_order
       then ret ([InsertTransposeAction n ''out'' (from_idx out_edge) (Some out_edge) (Some p),
                  EndActionUp n], VN cur_visited_nodes)
       else ret (cur_actions @ [ReorderInputDims n transpose_history
                                  (reverse_transpose H (Some p)), EndActionUp n],
                 VN cur_visited_nodes))"

definition up_constant ::
  "helpers \<Rightarrow> node \<Rightarrow> perm option \<Rightarrow> transpose_history list \<Rightarrow> action list \<Rightarrow> visited_nodes
     \<Rightarrow> found res" where
  "up_constant H n tp transpose_history cur_actions cur_visited_nodes =
     and_then (check_for_null_transpose n tp) (\<lambda>p.
       ret (cur_actions @ [ReorderConstantInput n transpose_history
                             (reverse_transpose H (Some p)), EndActionUp n],
            VN cur_visited_nodes))"

text \<open>
  Lines 657 to 743: a StridedSlice that changes the shape, a transient operator and a
  Reshape, then \<open>continue_up\<close>. The slice that cannot pass the permutation inserts a
  transpose at index 0 without an out edge and ends with \<open>EndActionDown\<close>; its
  \<open>TransposeSlidedSlice\<close> is built without a direction, written \<open>''''\<close> here.
\<close>

definition up_slice_reshape ::
  "helpers \<Rightarrow> graph \<Rightarrow> (call \<Rightarrow> found res) \<Rightarrow> node \<Rightarrow> shape \<Rightarrow> shape \<Rightarrow> node set \<Rightarrow> visited_nodes
     \<Rightarrow> perm option \<Rightarrow> transpose_history list \<Rightarrow> action list \<Rightarrow> visited_nodes \<Rightarrow> found res" where
  "up_slice_reshape H G rec n slice_shape out_shape exclude_nodes visited_nodes tp
       transpose_history cur_actions cur_visited_nodes =
     and_then (check_for_null_transpose n tp) (\<lambda>p.
       case reverse_reshape H p slice_shape out_shape True of
         (new_transpose, from_shape, to_shape) \<Rightarrow>
           if new_transpose = None
           then ret ([InsertTransposeAction n ''out'' 0 None (reverse_transpose H (Some p)),
                      EndActionDown n], VN cur_visited_nodes)
           else (let cur_actions = cur_actions @ [TransposeSlidedSlice n
                                     (reverse_transpose H (Some p)) to_shape '''']
                 in if identity_transpose H new_transpose
                    then ret (cur_actions @ [EndActionUp n], VN cur_visited_nodes)
                    else and_then (nth_res (in_dims n) 0) (\<lambda>in0.
                           continue_up H G rec n exclude_nodes visited_nodes cur_visited_nodes
                             cur_actions
                             (transpose_history @ [\<lparr>h_node = n, h_from_shape = out_shape,
                                h_transpose = new_transpose, h_to_shape = in0\<rparr>])
                             new_transpose)))"

definition up_transient ::
  "helpers \<Rightarrow> graph \<Rightarrow> (call \<Rightarrow> found res) \<Rightarrow> node \<Rightarrow> (perm option \<Rightarrow> action) \<Rightarrow> node set
     \<Rightarrow> visited_nodes \<Rightarrow> perm option \<Rightarrow> transpose_history list \<Rightarrow> action list \<Rightarrow> visited_nodes
     \<Rightarrow> found res" where
  "up_transient H G rec n transient_action exclude_nodes visited_nodes tp transpose_history
       cur_actions cur_visited_nodes =
     and_then (check_for_null_transpose n tp) (\<lambda>p.
       continue_up H G rec n exclude_nodes visited_nodes cur_visited_nodes
         (cur_actions @ [transient_action (reverse_transpose H (Some p))]) transpose_history
         (Some p))"

definition up_reshape ::
  "helpers \<Rightarrow> graph \<Rightarrow> (call \<Rightarrow> found res) \<Rightarrow> node \<Rightarrow> shape \<Rightarrow> shape \<Rightarrow> node set \<Rightarrow> visited_nodes
     \<Rightarrow> edge \<Rightarrow> perm option \<Rightarrow> transpose_history list \<Rightarrow> action list \<Rightarrow> visited_nodes
     \<Rightarrow> found res" where
  "up_reshape H G rec n old_shape shape exclude_nodes visited_nodes out_edge tp
       transpose_history cur_actions cur_visited_nodes =
     and_then (check_for_null_transpose n tp) (\<lambda>p.
       case reverse_reshape H p old_shape shape True of
         (new_transpose, from_shape, to_shape) \<Rightarrow>
           if new_transpose = None \<and> length (items old_shape) > 1
           then ret ([InsertTransposeAction n ''out'' (from_idx out_edge) (Some out_edge)
                        (reverse_transpose H (Some p)), EndActionUp n], VN cur_visited_nodes)
           else (let transpose_history =
                       transpose_history @ [\<lparr>h_node = n, h_from_shape = shape,
                          h_transpose = new_transpose, h_to_shape = old_shape\<rparr>];
                     cur_actions = cur_actions @ [rewrite_reshape n from_shape to_shape]
                 in if identity_transpose H new_transpose
                    then ret (cur_actions @ [EndActionUp n], VN cur_visited_nodes)
                    else if new_transpose = None
                      then (case continue_up H G rec n exclude_nodes visited_nodes
                                   cur_visited_nodes cur_actions transpose_history (Some p) of
                              Some (Inl CantContinueError) \<Rightarrow>
                                ret ([InsertTransposeAction n ''out'' (from_idx out_edge)
                                        (Some out_edge) (reverse_transpose H (Some p)),
                                      EndActionUp n], VN cur_visited_nodes)
                            | r \<Rightarrow> r)
                    else continue_up H G rec n exclude_nodes visited_nodes cur_visited_nodes
                           cur_actions transpose_history new_transpose))"

definition up_dispatch ::
  "helpers \<Rightarrow> graph \<Rightarrow> (call \<Rightarrow> found res) \<Rightarrow> node \<Rightarrow> node set \<Rightarrow> visited_nodes \<Rightarrow> edge
     \<Rightarrow> perm option \<Rightarrow> transpose_history list \<Rightarrow> action list \<Rightarrow> visited_nodes \<Rightarrow> found res" where
  "up_dispatch H G rec n exclude_nodes visited_nodes out_edge tp transpose_history
       cur_actions cur_visited_nodes =
     (case kind n of
        Fc batch_size \<Rightarrow>
          up_linear H G n batch_size out_edge tp transpose_history cur_actions cur_visited_nodes
      | LinearFusion filters \<Rightarrow>
          (case filters of
             [] \<Rightarrow> raise IndexError
           | batch_size # _ \<Rightarrow>
               up_linear H G n batch_size out_edge tp transpose_history cur_actions
                 cur_visited_nodes)
      | Transpose node_transpose \<Rightarrow>
          up_transpose H n node_transpose tp cur_actions cur_visited_nodes
      | Input fixed_order \<Rightarrow>
          up_input H n fixed_order out_edge tp transpose_history cur_actions cur_visited_nodes
      | ConstantInput \<Rightarrow> up_constant H n tp transpose_history cur_actions cur_visited_nodes
      | StridedSlice slice_shape out_shape changes_shape \<Rightarrow>
          (if changes_shape
           then up_slice_reshape H G rec n slice_shape out_shape exclude_nodes visited_nodes tp
                  transpose_history cur_actions cur_visited_nodes
           else up_transient H G rec n (\<lambda>t. TransposeSlidedSlice n t None ''up'')
                  exclude_nodes visited_nodes tp transpose_history cur_actions cur_visited_nodes)
      | Pad \<Rightarrow>
          up_transient H G rec n (\<lambda>t. TransposePad n t ''up'')
            exclude_nodes visited_nodes tp transpose_history cur_actions cur_visited_nodes
      | Reverse \<Rightarrow>
          up_transient H G rec n (\<lambda>t. TransposeReverse n t ''up'')
            exclude_nodes visited_nodes tp transpose_history cur_actions cur_visited_nodes
      | Reshape old_shape shape \<Rightarrow>
          up_reshape H G rec n old_shape shape exclude_nodes visited_nodes out_edge tp
            transpose_history cur_actions cur_visited_nodes
      | _ \<Rightarrow>
          continue_up H G rec n exclude_nodes visited_nodes cur_visited_nodes cur_actions
            transpose_history tp)"

text \<open>\<open>search_up\<close>, lines 522 to 557, then the parts above.\<close>

definition search_up_body ::
  "helpers \<Rightarrow> graph \<Rightarrow> (call \<Rightarrow> found res) \<Rightarrow> node \<Rightarrow> node set \<Rightarrow> visited_nodes \<Rightarrow> edge
     \<Rightarrow> transpose_history list \<Rightarrow> found res" where
  "search_up_body H G rec n exclude_nodes visited_nodes out_edge transpose_history =
     and_then (last_res transpose_history) (\<lambda>h.
     let tp = h_transpose h;
         cur_visited_nodes = visit_up [] n (from_idx out_edge)
     in if (case tp of None \<Rightarrow> False | Some p \<Rightarrow> length (items p) = 1)
          then ret ([EndActionUp n], VN cur_visited_nodes)
        else if sensitive_to_order n
          then and_then (nth_res (out_dims n) (from_idx out_edge)) (\<lambda>out_shape.
            if transpose_does_nothing H (reverse_transpose H tp) out_shape
            then (let new_shape = apply_transpose H out_shape (reverse_transpose H tp) in
                  if new_shape = out_shape
                  then ret ([EndActionUp n], VN cur_visited_nodes)
                  else ret ([InsertReshapeAction n ''out'' (from_idx out_edge) (Some out_edge)
                               out_shape new_shape, EndActionUp n], VN cur_visited_nodes))
            else and_then (check_for_null_transpose n tp) (\<lambda>p.
                   ret ([InsertTransposeAction n ''out'' (from_idx out_edge) (Some out_edge)
                           (reverse_transpose H (Some p)), EndActionUp n],
                        VN cur_visited_nodes)))
        else
          and_then (up_explore_down H G rec n exclude_nodes visited_nodes out_edge tp
                      cur_visited_nodes)
            (\<lambda>(cur_actions, cur_visited_nodes).
          up_dispatch H G rec n exclude_nodes visited_nodes out_edge tp transpose_history
            cur_actions cur_visited_nodes))"

text \<open>The two explorers, with the depth of the recursion as first argument.\<close>

primrec search :: "nat \<Rightarrow> helpers \<Rightarrow> graph \<Rightarrow> call \<Rightarrow> found res" where
  "search 0 H G c = None"
| "search (Suc d) H G c =
     (case c of
        Down n exclude_nodes visited_nodes in_edge transpose_history \<Rightarrow>
          search_down_body H G (search d H G) n exclude_nodes visited_nodes in_edge
            transpose_history
      | Up n exclude_nodes visited_nodes out_edge transpose_history \<Rightarrow>
          search_up_body H G (search d H G) n exclude_nodes visited_nodes out_edge
            transpose_history)"

definition search_down ::
  "nat \<Rightarrow> helpers \<Rightarrow> graph \<Rightarrow> node \<Rightarrow> node set \<Rightarrow> visited_nodes \<Rightarrow> edge \<Rightarrow> transpose_history list
     \<Rightarrow> found res" where
  "search_down d H G n exclude_nodes visited_nodes in_edge transpose_history =
     search d H G (Down n exclude_nodes visited_nodes in_edge transpose_history)"

definition search_up ::
  "nat \<Rightarrow> helpers \<Rightarrow> graph \<Rightarrow> node \<Rightarrow> node set \<Rightarrow> visited_nodes \<Rightarrow> edge \<Rightarrow> transpose_history list
     \<Rightarrow> found res" where
  "search_up d H G n exclude_nodes visited_nodes out_edge transpose_history =
     search d H G (Up n exclude_nodes visited_nodes out_edge transpose_history)"

section \<open>Cleanup: combining reshapes and transposes\<close>

text \<open>
  \<^verbatim>\<open>def search_edge_down(G, edge, pass_classes, stop_class):
      node = edge.to_node
      if isinstance(node, stop_class): return node
      elif isinstance(node, pass_classes):
          edges = G.out_edges(node)
          if len(edges) != 1: return None
          return search_edge_down(G, edges[0], pass_classes, stop_class)
      else: return None\<close>
  The outer \<open>None\<close> is a search that does not return (a cycle of pass nodes).
\<close>

partial_function (option) search_edge_down ::
  "graph \<Rightarrow> edge \<Rightarrow> (kind \<Rightarrow> bool) \<Rightarrow> (kind \<Rightarrow> bool) \<Rightarrow> node option option" where
  [code]: "search_edge_down G e pass_classes stop_class =
     (if stop_class (kind (to_node e)) then Some (Some (to_node e))
      else if pass_classes (kind (to_node e))
        then (case out_edges G (to_node e) of
                [e'] \<Rightarrow> search_edge_down G e' pass_classes stop_class
              | _ \<Rightarrow> Some None)
      else Some None)"

text \<open>
  \<^verbatim>\<open>def find_sequences(G, end_node_class, middle_node_classes):
      nodes = set(G.nodes(node_classes=end_node_class))
      pairs = []
      while nodes:
          node = nodes.pop()
          edges = G.out_edges(node)
          if len(edges) != 1: continue
          end_node = search_edge_down(G, edges[0], middle_node_classes, end_node_class)
          if end_node is None: continue
          pairs.append((node, end_node))
          if end_node in nodes: nodes.remove(end_node)
      return pairs\<close>
  \<open>set.pop\<close> takes the nodes in the order of the node list here.
\<close>

function find_sequences_loop ::
  "graph \<Rightarrow> (kind \<Rightarrow> bool) \<Rightarrow> (kind \<Rightarrow> bool) \<Rightarrow> node list \<Rightarrow> (node \<times> node) list
     \<Rightarrow> (node \<times> node) list option" where
  "find_sequences_loop G end_node_class middle_node_classes [] pairs = Some pairs"
| "find_sequences_loop G end_node_class middle_node_classes (n # ns) pairs =
     (case out_edges G n of
        [e] \<Rightarrow>
          (case search_edge_down G e middle_node_classes end_node_class of
             None \<Rightarrow> None
           | Some None \<Rightarrow> find_sequences_loop G end_node_class middle_node_classes ns pairs
           | Some (Some end_node) \<Rightarrow>
               find_sequences_loop G end_node_class middle_node_classes
                 (removeAll end_node ns) (pairs @ [(n, end_node)]))
      | _ \<Rightarrow> find_sequences_loop G end_node_class middle_node_classes ns pairs)"
  by pat_completeness auto
termination
  by (relation "measure (\<lambda>(G, ec, mc, ns, pairs). length ns)")
     (auto simp: less_Suc_eq_le length_removeAll_less_eq)

definition find_sequences ::
  "graph \<Rightarrow> (kind \<Rightarrow> bool) \<Rightarrow> (kind \<Rightarrow> bool) \<Rightarrow> (node \<times> node) list option" where
  "find_sequences G end_node_class middle_node_classes =
     find_sequences_loop G end_node_class middle_node_classes
       (remdups (nodes_of_class G end_node_class)) []"

definition is_middle :: "kind \<Rightarrow> bool" where
  "is_middle k = (k = Copy \<or> k = UnaryOp \<or> k = Activation)"

text \<open>
  An assignment to an attribute of a node object: the node is replaced by its new
  value in the node list and in the edges that hold it.
\<close>

definition replace_in :: "node \<Rightarrow> node \<Rightarrow> node \<Rightarrow> node" where
  "replace_in old new n = (if n = old then new else n)"

definition set_node :: "node \<Rightarrow> node \<Rightarrow> graph \<Rightarrow> graph" where
  "set_node old new G =
     G\<lparr>nodes := map (replace_in old new) (nodes G),
       edges := map (\<lambda>e. e\<lparr>from_node := replace_in old new (from_node e),
                             to_node := replace_in old new (to_node e)\<rparr>) (edges G)\<rparr>"

text \<open>
  \<^verbatim>\<open>for tstart, tend in trans_pairs:
      new_transpose = apply_transpose(tstart.transpose, tend.transpose)
      tstart.transpose = new_transpose
      G.remove_and_reconnect(tend, edge_class=NNEdge)\<close>
  The pairs that follow hold the same node objects, so the new value of \<open>tstart\<close>
  replaces the old one there too.
\<close>

fun combine_transposes_loop :: "helpers \<Rightarrow> (node \<times> node) list \<Rightarrow> graph \<Rightarrow> graph" where
  "combine_transposes_loop H [] G = G"
| "combine_transposes_loop H ((tstart, tend) # pairs) G =
     (case (kind tstart, kind tend) of
        (Transpose t1, Transpose t2) \<Rightarrow>
          (let tstart' = tstart\<lparr>kind := Transpose (apply_transpose H t1 (Some t2))\<rparr>
           in combine_transposes_loop H
                (map (\<lambda>(a, b). (replace_in tstart tstart' a, replace_in tstart tstart' b)) pairs)
                (remove_and_reconnect (set_node tstart tstart' G) (replace_in tstart tstart' tend)))
      | _ \<Rightarrow> combine_transposes_loop H pairs G)"

definition combine_transposes :: "helpers \<Rightarrow> graph \<Rightarrow> graph option" where
  "combine_transposes H G =
     map_option (\<lambda>trans_pairs. combine_transposes_loop H trans_pairs G)
       (find_sequences G is_Transpose is_middle)"

text \<open>
  \<^verbatim>\<open>for rstart, rend in reshape_pairs:
      rstart.shape = rend.shape
      G.remove_and_reconnect(rend, edge_class=NNEdge)\<close>
\<close>

fun combine_reshapes_loop :: "(node \<times> node) list \<Rightarrow> graph \<Rightarrow> graph" where
  "combine_reshapes_loop [] G = G"
| "combine_reshapes_loop ((rstart, rend) # pairs) G =
     (case (kind rstart, kind rend) of
        (Reshape old1 shape1, Reshape old2 shape2) \<Rightarrow>
          (let rstart' = rstart\<lparr>kind := Reshape old1 shape2\<rparr>
           in combine_reshapes_loop
                (map (\<lambda>(a, b). (replace_in rstart rstart' a, replace_in rstart rstart' b)) pairs)
                (remove_and_reconnect (set_node rstart rstart' G) (replace_in rstart rstart' rend)))
      | _ \<Rightarrow> combine_reshapes_loop pairs G)"

definition combine_reshapes :: "graph \<Rightarrow> graph option" where
  "combine_reshapes G =
     map_option (\<lambda>reshape_pairs. combine_reshapes_loop reshape_pairs G)
       (find_sequences G is_Reshape is_middle)"

section \<open>The driver\<close>

text \<open>\<^verbatim>\<open>def apply_actions(G, results): for action in results: action.execute(G)\<close>\<close>

definition apply_actions :: "helpers \<Rightarrow> graph \<Rightarrow> action list \<Rightarrow> graph" where
  "apply_actions H G results = fold (execute H) results G"

text \<open>
  The upward attempt for one transpose (lines 929 to 951). \<open>CantContinueError\<close> is
  caught and gives \<open>None\<close> for the actions; any other error leaves the driver.
\<close>

definition try_up ::
  "nat \<Rightarrow> helpers \<Rightarrow> graph \<Rightarrow> node set \<Rightarrow> node \<Rightarrow> perm
     \<Rightarrow> (action list option \<times> visited_nodes) res" where
  "try_up d H G visited_nodes transpose_node node_transpose =
     (case in_edges G transpose_node of
        [] \<Rightarrow> raise IndexError
      | in_edge # _ \<Rightarrow>
          if from_node in_edge \<in> visited_nodes then ret (None, [])
          else and_then (nth_res (out_dims transpose_node) 0) (\<lambda>out0.
               and_then (nth_res (in_dims transpose_node) 0) (\<lambda>in0.
                 case search_up d H G (from_node in_edge) visited_nodes
                        (visit_up [] transpose_node 0) in_edge
                        [\<lparr>h_node = transpose_node, h_from_shape = out0,
                          h_transpose = reverse_transpose H (Some node_transpose),
                          h_to_shape = in0\<rparr>] of
                   None \<Rightarrow> None
                 | Some (Inl CantContinueError) \<Rightarrow> ret (None, [])
                 | Some (Inl err) \<Rightarrow> raise err
                 | Some (Inr (cur_actions_up, VN cur_visited_up)) \<Rightarrow>
                     ret (Some (DeleteTransposeAction transpose_node None # cur_actions_up),
                          cur_visited_up)
                 | Some (Inr (cur_actions_up, Plain _)) \<Rightarrow> raise AttributeError)))"

text \<open>
  The downward attempt (lines 953 to 982):
  \<^verbatim>\<open>for edge in G.out_edges(transpose_node.name):
      if edge.to_node in visited_nodes: raise CantContinueError()
      if edge.to_node in cur_visited_down: continue
      this_actions_down, this_visited_down = search_down(G, edge.to_node, visited_nodes,
          cur_visited_down, edge, [TransposeHistory(transpose_node,
              transpose_node.in_dims[0].shape, transpose_node.transpose,
              transpose_node.out_dims[0].shape)])
      cur_actions_down += this_actions_down
      cur_visited_down |= this_visited_down\<close>
\<close>

definition try_down ::
  "nat \<Rightarrow> helpers \<Rightarrow> graph \<Rightarrow> bool \<Rightarrow> node set \<Rightarrow> node \<Rightarrow> perm
     \<Rightarrow> (action list option \<times> visited_nodes) res" where
  "try_down d H G only_up visited_nodes transpose_node node_transpose =
     (if only_up then ret (None, [])
      else
        case for_each (\<lambda>e (cur_actions_down, cur_visited_down).
                 if to_node e \<in> visited_nodes then raise CantContinueError
                 else if contains cur_visited_down (to_node e)
                   then ret (cur_actions_down, cur_visited_down)
                 else and_then (nth_res (in_dims transpose_node) 0) (\<lambda>in0.
                      and_then (nth_res (out_dims transpose_node) 0) (\<lambda>out0.
                      and_then (search_down d H G (to_node e) visited_nodes cur_visited_down e
                                  [\<lparr>h_node = transpose_node, h_from_shape = in0,
                                    h_transpose = Some node_transpose, h_to_shape = out0\<rparr>])
                        (\<lambda>(this_actions_down, this_visited_down).
                           ret (cur_actions_down @ this_actions_down,
                                vn_ior cur_visited_down this_visited_down)))))
               (out_edges G transpose_node) ([], visit_down [] transpose_node 0) of
          None \<Rightarrow> None
        | Some (Inl CantContinueError) \<Rightarrow> ret (None, [])
        | Some (Inl err) \<Rightarrow> raise err
        | Some (Inr (cur_actions_down, cur_visited_down)) \<Rightarrow>
            ret (Some (DeleteTransposeAction transpose_node None # cur_actions_down),
                 cur_visited_down))"

text \<open>
  The variables of one pass: \<open>found_results\<close>, \<open>visited_nodes\<close> (a plain set), \<open>actions\<close>,
  and the eliminations that the pass logs with
  \<open>info(f'found elimination for {transpose_node.name} upwards ...')\<close> or
  \<open>... downwards ...\<close>: the name of the transpose and the direction committed.
\<close>

record pass_state =
  found_results :: bool
  pass_visited :: "node set"
  pass_actions :: "action list"
  found_log :: "(string \<times> choice) list"

definition commit ::
  "pass_state \<Rightarrow> node \<Rightarrow> choice \<Rightarrow> action list \<Rightarrow> visited_nodes \<Rightarrow> pass_state" where
  "commit s transpose_node c cur_actions cur_visited =
     \<lparr>found_results = True,
      pass_visited = insert transpose_node (pass_visited s \<union> fst ` set cur_visited),
      pass_actions = pass_actions s @ cur_actions,
      found_log = found_log s @ [(name transpose_node, c)]\<rparr>"

text \<open>
  The loop over the transposes of one pass (lines 922 to 1011). The result is the
  state of the pass and the error, if one, that left the loop. \<open>break_after\<close> is
  \<open>single_step or steps is not None\<close>.
\<close>

fun try_transposes ::
  "nat \<Rightarrow> helpers \<Rightarrow> graph \<Rightarrow> bool \<Rightarrow> bool \<Rightarrow> node list \<Rightarrow> pass_state
     \<Rightarrow> (pass_state \<times> error option) option" where
  "try_transposes d H G break_after only_up [] s = Some (s, None)"
| "try_transposes d H G break_after only_up (transpose_node # transposes) s =
     (if transpose_node \<in> pass_visited s then try_transposes d H G break_after only_up transposes s
      else
        case kind transpose_node of
          Transpose node_transpose \<Rightarrow>
            (case try_up d H G (pass_visited s) transpose_node node_transpose of
               None \<Rightarrow> None
             | Some (Inl err) \<Rightarrow> Some (s, Some err)
             | Some (Inr (cur_actions_up, cur_visited_up)) \<Rightarrow>
                 (case try_down d H G only_up (pass_visited s) transpose_node node_transpose of
                    None \<Rightarrow> None
                  | Some (Inl err) \<Rightarrow> Some (s, Some err)
                  | Some (Inr (cur_actions_down, cur_visited_down)) \<Rightarrow>
                      (case evaluate_elimination G cur_actions_up cur_actions_down of
                         None \<Rightarrow> None
                       | Some (Inl err) \<Rightarrow> Some (s, Some err)
                       | Some (Inr CommitUp) \<Rightarrow>
                           (let s' = commit s transpose_node CommitUp (the cur_actions_up)
                                       cur_visited_up
                            in if break_after then Some (s', None)
                               else try_transposes d H G break_after only_up transposes s')
                       | Some (Inr CommitDown) \<Rightarrow>
                           (let s' = commit s transpose_node CommitDown (the cur_actions_down)
                                       cur_visited_down
                            in if break_after then Some (s', None)
                               else try_transposes d H G break_after only_up transposes s')
                       | Some (Inr NoCommit) \<Rightarrow>
                           try_transposes d H G break_after only_up transposes s)))
        | _ \<Rightarrow> Some (s, Some AttributeError))"

text \<open>
  The state of the driver: the graph, \<open>pass_count\<close>, \<open>found_results\<close> of the last pass,
  and the log of the eliminations found, each with the number of its pass.
\<close>

record driver_state =
  graph_of :: graph
  pass_count :: nat
  found :: bool
  eliminations :: "(nat \<times> string \<times> choice) list"

datatype driver_error = ValueError string | Uncaught error

definition stuck_message :: string where
  "stuck_message =
     ''Sorry, eliminate transposes seems to be stuck in a loop. Please report to GreenWaves.''"

text \<open>
  The end of a pass (lines 1013 to 1024): the actions are applied, the cleanup runs
  when \<open>do_silly\<close> is set, the dimensions are inferred again and the debug function
  is called. \<open>None\<close> is a cleanup that does not return.
\<close>

definition finish_pass ::
  "helpers \<Rightarrow> (graph \<Rightarrow> graph) option \<Rightarrow> bool \<Rightarrow> pass_state \<Rightarrow> graph \<Rightarrow> graph option" where
  "finish_pass H debug_function do_silly s G =
     (let G1 = (if found_results s then apply_actions H G (pass_actions s) else G) in
      case (if do_silly
            then Option.bind (combine_reshapes (remove_silly_reshapes G1)) (combine_transposes H)
            else Some G1) of
        None \<Rightarrow> None
      | Some G2 \<Rightarrow>
          (let G3 = add_dimensions H G2
           in Some (case debug_function of None \<Rightarrow> G3 | Some f \<Rightarrow> f G3)))"

text \<open>
  \<^verbatim>\<open>def eliminate_transposes(G, debug_function=None, steps=None, single_step=False,
                           do_silly=True, only_up=False):
      found_results = True
      pass_count = 0
      while found_results:
          if steps is not None:
              if pass_count >= steps: break
          else:
              if pass_count >= 50:
                  raise ValueError("Sorry, eliminate transposes seems to be stuck in a loop. ...")
          pass_count += 1
          found_results = False
          visited_nodes = set()
          actions = []
          transposes = sorted(G.nodes(node_classes=TransposeParameters), key=lambda node: node.name)
          while transposes: ...
          if found_results: apply_actions(G, actions)
          if do_silly: remove_silly_reshapes(G); combine_reshapes(G); combine_transposes(G)
          G.add_dimensions()
          if debug_function: debug_function(G)\<close>
  The result is the state when the function returns or raises, and the error raised.
\<close>

function eliminate_loop ::
  "nat \<Rightarrow> helpers \<Rightarrow> (graph \<Rightarrow> graph) option \<Rightarrow> int option \<Rightarrow> bool \<Rightarrow> bool \<Rightarrow> bool
     \<Rightarrow> driver_state \<Rightarrow> (driver_state \<times> driver_error option) option" where
  "eliminate_loop d H debug_function steps single_step do_silly only_up st =
     (if \<not> found st then Some (st, None)
      else if (case steps of Some n \<Rightarrow> int (pass_count st) \<ge> n | None \<Rightarrow> False)
        then Some (st, None)
      else if steps = None \<and> pass_count st \<ge> 50
        then Some (st, Some (ValueError stuck_message))
      else
        (let G = graph_of st;
             transposes = sort_key name (nodes_of_class G is_Transpose)
         in case try_transposes d H G (single_step \<or> steps \<noteq> None) only_up transposes
                   \<lparr>found_results = False, pass_visited = {}, pass_actions = [], found_log = []\<rparr> of
              None \<Rightarrow> None
            | Some (s, Some err) \<Rightarrow>
                Some (st\<lparr>pass_count := pass_count st + 1, found := found_results s,
                         eliminations := eliminations st
                           @ map (\<lambda>(nm, c). (pass_count st + 1, nm, c)) (found_log s)\<rparr>,
                      Some (Uncaught err))
            | Some (s, None) \<Rightarrow>
                (case finish_pass H debug_function do_silly s G of
                   None \<Rightarrow> None
                 | Some G' \<Rightarrow>
                     eliminate_loop d H debug_function steps single_step do_silly only_up
                       \<lparr>graph_of = G', pass_count = pass_count st + 1, found = found_results s,
                        eliminations = eliminations st
                          @ map (\<lambda>(nm, c). (pass_count st + 1, nm, c)) (found_log s)\<rparr>)))"
  by pat_completeness auto
termination
  by (relation "measure (\<lambda>(d, H, dbg, steps, single_step, do_silly, only_up, st).
                  case steps of None \<Rightarrow> 50 - pass_count st
                              | Some n \<Rightarrow> nat n - pass_count st)")
     (auto split: option.splits)

declare eliminate_loop.simps [simp del]

definition eliminate_transposes ::
  "nat \<Rightarrow> helpers \<Rightarrow> graph \<Rightarrow> (graph \<Rightarrow> graph) option \<Rightarrow> int option \<Rightarrow> bool \<Rightarrow> bool \<Rightarrow> bool
     \<Rightarrow> (driver_state \<times> driver_error option) option" where
  "eliminate_transposes d H G debug_function steps single_step do_silly only_up =
     eliminate_loop d H debug_function steps single_step do_silly only_up
       \<lparr>graph_of = G, pass_count = 0, found = True, eliminations = []\<rparr>"

section \<open>The score in the specification's words\<close>

text \<open>
  The number of \<open>DeleteTranspose\<close> actions minus the number of \<open>InsertTranspose\<close> actions,
  and \<open>-1\<close> for a direction that failed.
\<close>

definition score :: "action list option \<Rightarrow> int" where
  "score actions =
     (case actions of
        None \<Rightarrow> - 1
      | Some acts \<Rightarrow> int (length (filter is_DeleteTranspose acts))
                     - int (length (filter is_InsertTranspose acts)))"

section \<open>Example graphs\<close>

text \<open>The shapes of the example nodes are lists.\<close>

definition mk_node ::
  "string \<Rightarrow> kind \<Rightarrow> bool \<Rightarrow> int \<Rightarrow> int list list \<Rightarrow> int list list \<Rightarrow> node" where
  "mk_node nm k sens step ins outs =
     \<lparr>name = nm, kind = k, sensitive_to_order = sens, broadcastable = False, step_idx = step,
      in_dims = map PyList ins, out_dims = map PyList outs\<rparr>"

definition mk_edge :: "node \<Rightarrow> node \<Rightarrow> edge" where
  "mk_edge a b = \<lparr>from_node = a, from_idx = 0, to_node = b, to_idx = 0\<rparr>"

text \<open>
  A transpose \<open>T\<close> after a fixed-order input, whose consumer \<open>Y\<close> feeds two
  order-sensitive nodes \<open>S1\<close>, \<open>S2\<close> and, through \<open>W\<close>, the transpose \<open>T2\<close> that reverses \<open>T\<close>:
  \<^verbatim>\<open>P -> T -> Y -> S1,  Y -> S2,  Y -> W -> T2 -> O\<close>
\<close>

definition fork_P :: node where
  "fork_P = mk_node ''P'' (Input True) False 0 [] [[1, 3, 4]]"

definition fork_T :: node where
  "fork_T = mk_node ''T'' (Transpose (PyList [0, 2, 1])) False 1 [[1, 3, 4]] [[1, 4, 3]]"

definition fork_Y :: node where
  "fork_Y = mk_node ''Y'' Activation False 2 [[1, 4, 3]] [[1, 4, 3]]"

definition fork_S1 :: node where
  "fork_S1 = mk_node ''S1'' Other True 3 [[1, 4, 3]] [[1, 4, 3]]"

definition fork_S2 :: node where
  "fork_S2 = mk_node ''S2'' Other True 4 [[1, 4, 3]] [[1, 4, 3]]"

definition fork_W :: node where
  "fork_W = mk_node ''W'' Activation False 5 [[1, 4, 3]] [[1, 4, 3]]"

definition fork_T2 :: node where
  "fork_T2 = mk_node ''T2'' (Transpose (PyList [0, 2, 1])) False 6 [[1, 4, 3]] [[1, 3, 4]]"

definition fork_O :: node where
  "fork_O = mk_node ''O'' (Output False) False 7 [[1, 3, 4]] []"

definition fork_graph :: graph where
  "fork_graph =
     \<lparr>nodes = [fork_P, fork_T, fork_Y, fork_S1, fork_S2, fork_W, fork_T2, fork_O],
      edges = [mk_edge fork_P fork_T, mk_edge fork_T fork_Y, mk_edge fork_Y fork_S1,
               mk_edge fork_Y fork_S2, mk_edge fork_Y fork_W, mk_edge fork_W fork_T2,
               mk_edge fork_T2 fork_O],
      quantization = None\<rparr>"

text \<open>The action lists of the two directions for \<open>T\<close> in this graph.\<close>

definition fork_up :: "action list" where
  "fork_up =
     [DeleteTransposeAction fork_T None,
      InsertTransposeAction fork_P ''out'' 0 (Some (mk_edge fork_P fork_T)) (Some (PyList [0, 2, 1])),
      EndActionUp fork_P]"

definition fork_down :: "action list" where
  "fork_down =
     [DeleteTransposeAction fork_T None,
      InsertTransposeAction fork_S1 ''in'' 0 None (Some (PyList [0, 2, 1])), EndActionDown fork_S1,
      InsertTransposeAction fork_S2 ''in'' 0 None (Some (PyList [0, 2, 1])), EndActionDown fork_S2,
      DeleteTransposeAction fork_T2 None, EndActionDown fork_T2]"

text \<open>A graph with a Reshape that does nothing: \<^verbatim>\<open>A -> R -> B\<close>.\<close>

definition rs_A :: node where
  "rs_A = mk_node ''A'' (Input False) False 0 [] [[2, 3]]"

definition rs_R :: node where
  "rs_R = mk_node ''R'' (Reshape (PyList [2, 3]) (PyList [2, 3])) False 1 [[2, 3]] [[2, 3]]"

definition rs_B :: node where
  "rs_B = mk_node ''B'' (Output False) False 2 [[2, 3]] []"

definition rs_graph :: graph where
  "rs_graph = \<lparr>nodes = [rs_A, rs_R, rs_B], edges = [mk_edge rs_A rs_R, mk_edge rs_R rs_B],
     quantization = None\<rparr>"

section \<open>The transpose algebra in the specification's words\<close>

text \<open>
  Modelled from the spec: the functions of \<open>transpose_helpers\<close>, which this file imports
  and the sources do not hold. \<open>apply(permutation, shape)\<close> "produces a shape of the same rank
  whose i-th element is \<open>shape[permutation[i]]\<close>"; \<open>compose(p, q)\<close> is "applying \<open>p\<close> then
  \<open>q\<close>; defined as \<open>apply(q, p)\<close>"; \<open>reverse(p)\<close> "is the inverse permutation"; a
  permutation is the identity "when it equals \<open>[0..n)\<close>"; it does nothing when "every
  axis \<open>i\<close> with \<open>p[i] \<noteq> i\<close> has \<open>shape[p[i]] == 1\<close> and \<open>shape[i] == 1\<close>".
\<close>

definition spec_apply :: "int list \<Rightarrow> int list \<Rightarrow> int list" where
  "spec_apply permutation shape = map (\<lambda>i. shape ! nat i) permutation"

definition spec_compose :: "int list \<Rightarrow> int list \<Rightarrow> int list" where
  "spec_compose p q = spec_apply q p"

definition spec_reverse :: "int list \<Rightarrow> int list" where
  "spec_reverse p = map (\<lambda>i. int (length (takeWhile (\<lambda>a. a \<noteq> int i) p))) [0..<length p]"

definition spec_is_identity :: "int list \<Rightarrow> bool" where
  "spec_is_identity p = (p = map int [0..<length p])"

definition spec_does_nothing :: "int list \<Rightarrow> int list \<Rightarrow> bool" where
  "spec_does_nothing p shape =
     list_all (\<lambda>i. p ! i = int i \<or> (shape ! nat (p ! i) = 1 \<and> shape ! i = 1)) [0..<length p]"

text \<open>
  An instance of the helpers for the example graphs, which hold no Reshape and no
  slice: the algebra above on the elements, with lists as results (\<open>strip_leading_dim\<close>
  calls \<open>copy\<close> on what \<open>apply_transpose\<close> returns, which a tuple does not have), a
  \<open>reverses_transpose_up\<close> that compares with the inverse
  and asks for no residual reshape, a \<open>reverse_reshape\<close> that finds no permutation, and
  an \<open>execute\<close> that performs the removals (a \<open>Delete\<close> action "removes the node and
  reconnects its single input to its consumer(s)"; an end sentinel has "no graph
  effect") and leaves the graph as it is for the other actions.
\<close>

definition example_helpers :: helpers where
  "example_helpers =
     \<lparr>reverse_transpose = map_option (\<lambda>p. PyList (spec_reverse (items p))),
      apply_transpose = (\<lambda>elems tp. case tp of
                           None \<Rightarrow> elems
                         | Some p \<Rightarrow> PyList (spec_apply (items p) (items elems))),
      transpose_does_nothing = (\<lambda>tp shape. case tp of
                                  None \<Rightarrow> False
                                | Some p \<Rightarrow> spec_does_nothing (items p) (items shape)),
      identity_transpose = (\<lambda>tp. case tp of None \<Rightarrow> False | Some p \<Rightarrow> spec_is_identity (items p)),
      reverses_transpose_up =
        (\<lambda>trans1 trans2 dim. (items trans2 = spec_reverse (items trans1), None)),
      reverse_reshape = (\<lambda>tp old_shape shape going_up. (None, None, None)),
      layout_shape = (\<lambda>dim. dim),
      calc_transpose = (\<lambda>dim tp. PyList (spec_apply (items tp) (items dim))),
      execute = (\<lambda>a G. case a of
                   DeleteTransposeAction n reshape \<Rightarrow> remove_and_reconnect G n
                 | DeleteReshapeAction n \<Rightarrow> remove_and_reconnect G n
                 | _ \<Rightarrow> G),
      add_dimensions = (\<lambda>G. G)\<rparr>"

text \<open>A batched linear layer \<open>L\<close> (batch size 2) between an input and an output.\<close>

definition lin_I :: node where
  "lin_I = mk_node ''I'' (Input False) False 0 [] [[2, 6]]"

definition lin_L :: node where
  "lin_L = mk_node ''L'' (Fc 2) False 1 [[2, 6]] [[2, 4]]"

definition lin_O :: node where
  "lin_O = mk_node ''O'' (Output False) False 2 [[2, 4]] []"

definition lin_graph :: graph where
  "lin_graph = \<lparr>nodes = [lin_I, lin_L, lin_O],
     edges = [mk_edge lin_I lin_L, mk_edge lin_L lin_O], quantization = None\<rparr>"

definition hist :: "node \<Rightarrow> perm \<Rightarrow> transpose_history list" where
  "hist n p =
     [\<lparr>h_node = n, h_from_shape = PyList [], h_transpose = Some p, h_to_shape = PyList []\<rparr>]"

text \<open>
  Two independent pairs of transposes that cancel, each after a fixed-order input:
  \<^verbatim>\<open>I1 -> Ta -> Tb -> O1,   I2 -> Tc -> Td -> O2\<close>
\<close>

definition pr_I1 :: node where
  "pr_I1 = mk_node ''I1'' (Input True) False 0 [] [[1, 3, 4]]"

definition pr_Ta :: node where
  "pr_Ta = mk_node ''Ta'' (Transpose (PyList [0, 2, 1])) False 1 [[1, 3, 4]] [[1, 4, 3]]"

definition pr_Tb :: node where
  "pr_Tb = mk_node ''Tb'' (Transpose (PyList [0, 2, 1])) False 2 [[1, 4, 3]] [[1, 3, 4]]"

definition pr_O1 :: node where
  "pr_O1 = mk_node ''O1'' (Output False) False 3 [[1, 3, 4]] []"

definition pr_I2 :: node where
  "pr_I2 = mk_node ''I2'' (Input True) False 4 [] [[1, 3, 4]]"

definition pr_Tc :: node where
  "pr_Tc = mk_node ''Tc'' (Transpose (PyList [0, 2, 1])) False 5 [[1, 3, 4]] [[1, 4, 3]]"

definition pr_Td :: node where
  "pr_Td = mk_node ''Td'' (Transpose (PyList [0, 2, 1])) False 6 [[1, 4, 3]] [[1, 3, 4]]"

definition pr_O2 :: node where
  "pr_O2 = mk_node ''O2'' (Output False) False 7 [[1, 3, 4]] []"

definition pairs_graph :: graph where
  "pairs_graph =
     \<lparr>nodes = [pr_I1, pr_Ta, pr_Tb, pr_O1, pr_I2, pr_Tc, pr_Td, pr_O2],
      edges = [mk_edge pr_I1 pr_Ta, mk_edge pr_Ta pr_Tb, mk_edge pr_Tb pr_O1,
               mk_edge pr_I2 pr_Tc, mk_edge pr_Tc pr_Td, mk_edge pr_Td pr_O2],
      quantization = None\<rparr>"

text \<open>What a run of the driver shows: the passes, the eliminations, the nodes left, the error.\<close>

definition summary ::
  "(driver_state \<times> driver_error option) option
     \<Rightarrow> (nat \<times> (nat \<times> string \<times> choice) list \<times> string list \<times> driver_error option) option" where
  "summary r =
     map_option (\<lambda>(st, out). (pass_count st, eliminations st, map name (nodes (graph_of st)), out)) r"

text \<open>
  Helpers whose \<open>execute\<close> has no effect: the graph stays as it is, and every pass finds
  the same elimination again.
\<close>

definition idle_helpers :: helpers where
  "idle_helpers = example_helpers\<lparr>execute := (\<lambda>a G. G)\<rparr>"

definition first_pair :: graph where
  "first_pair = \<lparr>nodes = [pr_I1, pr_Ta, pr_Tb, pr_O1],
     edges = [mk_edge pr_I1 pr_Ta, mk_edge pr_Ta pr_Tb, mk_edge pr_Tb pr_O1],
     quantization = None\<rparr>"


text \<open>
  A transpose whose consumer adds the output of a batched linear layer \<open>L\<close> (batch size
  2): \<^verbatim>\<open>I -> T -> A,  J -> L -> A,  A -> O\<close>. The permutation of \<open>T\<close> is the argument: the
  tuple \<open>(1, 0)\<close>, or the list \<open>[1, 0]\<close> that \<open>combine_transposes\<close> stores in a node.
\<close>

definition sum_I :: node where
  "sum_I = mk_node ''I'' (Input False) False 0 [] [[4, 2]]"

definition sum_T :: "perm \<Rightarrow> node" where
  "sum_T p = mk_node ''T'' (Transpose p) False 1 [[4, 2]] [[2, 4]]"

definition sum_J :: node where
  "sum_J = mk_node ''J'' (Input False) False 2 [] [[2, 6]]"

definition sum_L :: node where
  "sum_L = mk_node ''L'' (Fc 2) False 3 [[2, 6]] [[2, 4]]"

definition sum_A :: node where
  "sum_A = mk_node ''A'' BinaryOp False 4 [[2, 4], [2, 4]] [[2, 4]]"

definition sum_O :: node where
  "sum_O = mk_node ''O'' (Output False) False 5 [[2, 4]] []"

definition sum_LA :: edge where
  "sum_LA = \<lparr>from_node = sum_L, from_idx = 0, to_node = sum_A, to_idx = 1\<rparr>"

definition sum_graph :: "perm \<Rightarrow> graph" where
  "sum_graph p =
     \<lparr>nodes = [sum_I, sum_T p, sum_J, sum_L, sum_A, sum_O],
      edges = [mk_edge sum_I (sum_T p), mk_edge sum_J sum_L, mk_edge (sum_T p) sum_A, sum_LA,
               mk_edge sum_A sum_O],
      quantization = None\<rparr>"

section \<open>Theorems: transpose algebra\<close>

lemma range_set: "set (py_range k) = {a. 0 \<le> a \<and> a < k}"
proof -
  have "\<And>a. 0 \<le> a \<Longrightarrow> a < k \<Longrightarrow> a \<in> int ` {0..<nat k}"
  proof -
    fix a :: int
    assume "0 \<le> a" "a < k"
    then have "nat a \<in> {0..<nat k}" "a = int (nat a)" by auto
    then show "a \<in> int ` {0..<nat k}" by (rule_tac image_eqI)
  qed
  then show ?thesis by (auto simp: py_range_def)
qed

lemma count_below_range:
  assumes "k \<le> b"
  shows "sum_list (map (\<lambda>s. if s < b then 1 else 0) (py_range k)) = (if 0 \<le> k then k else (0::int))"
proof -
  have "\<And>s. s \<in> set (py_range k) \<Longrightarrow> s < b"
    using assms by (auto simp: range_set)
  then have eq: "map (\<lambda>s. if s < b then 1 else (0::int)) (py_range k) = map (\<lambda>s. 1) (py_range k)"
    by (intro map_cong) auto
  have "sum_list (map (\<lambda>s. if s < b then 1 else 0) (py_range k)) = int (length (py_range k))"
    unfolding eq by (simp add: sum_list_triv)
  then show ?thesis by (simp add: py_range_def)
qed

text \<open>
  C10. For a sequence \<open>p\<close> of non-negative integers and a natural number \<open>k\<close>, stripping
  the axes \<open>range(k)\<close> from the expansion of \<open>p\<close> by \<open>k\<close> gives \<open>p\<close> back.
\<close>

theorem strip_expand_roundtrip:
  assumes "\<forall>a \<in> set p. 0 \<le> a" and "0 \<le> k"
  shows "strip_axes_from_transpose (expand_axes_in_transpose p k) (py_range k) = p"
proof -
  have front: "filter (\<lambda>axis. axis \<notin> set (py_range k)) (py_range k) = []"
    by (simp add: filter_empty_conv)
  have rest: "filter (\<lambda>axis. axis \<notin> set (py_range k)) (map (\<lambda>axis. axis + k) p)
                = map (\<lambda>axis. axis + k) p"
    using assms(1) by (auto simp: filter_id_conv range_set)
  have red: "\<And>a. a \<in> set p \<Longrightarrow> reduce_dimension (a + k) (py_range k) = a"
  proof -
    fix a assume "a \<in> set p"
    then have "k \<le> a + k" using assms(1) by auto
    then show "reduce_dimension (a + k) (py_range k) = a"
      using assms(2) by (simp add: reduce_dimension_def count_below_range)
  qed
  have "strip_axes_from_transpose (expand_axes_in_transpose p k) (py_range k)
          = map (\<lambda>axis. reduce_dimension axis (py_range k)) (map (\<lambda>axis. axis + k) p)"
    by (simp add: strip_axes_from_transpose_def expand_axes_in_transpose_def front rest)
  also have "\<dots> = map (\<lambda>a. a) p"
    unfolding map_map by (rule map_cong) (auto simp: red)
  finally show ?thesis by simp
qed

theorem strip_expand_roundtrip_witness:
  "strip_axes_from_transpose (expand_axes_in_transpose [0, 2, 3, 1] 2) (py_range 2) = [0, 2, 3, 1]"
  using strip_expand_roundtrip [of "[0, 2, 3, 1]" 2] by simp

section \<open>Theorems: visit bookkeeping\<close>


lemma is_dict_update: "is_dict ns \<Longrightarrow> is_dict (AList.update k v ns)"
  by (simp add: is_dict_def distinct_update)

lemma iter_update_empty:
  "is_dict ns \<Longrightarrow> iter (AList.update n {} ns) = iter (AList.delete n ns)"
proof (induction ns)
  case Nil
  then show ?case by (simp add: iter_def)
next
  case (Cons a ns)
  obtain k v where a: "a = (k, v)" by (cases a)
  have d: "is_dict ns" and kn: "k \<notin> fst ` set ns" using Cons.prems by (auto simp: is_dict_def a)
  show ?case
  proof (cases "k = n")
    case True
    then have "AList.delete n ns = ns" using kn by (simp add: delete_id)
    then show ?thesis using True by (simp add: a iter_def)
  next
    case False
    then show ?thesis using Cons.IH [OF d] by (simp add: a iter_def)
  qed
qed


text \<open>
  C9. Right after \<open>add(n)\<close> the node has an empty tag set: \<open>n in s\<close> is false, iteration
  does not produce \<open>n\<close>, and \<open>len\<close> counts what it counts for the dict without the key
  \<open>n\<close>. A first \<open>visit_down\<close> or \<open>visit_up\<close> of \<open>n\<close> makes the membership test true.
\<close>

theorem add_not_member:
  assumes "is_dict s"
  shows "\<not> contains (add s n) n
       \<and> n \<notin> set (iter (add s n))
       \<and> len (add s n) = len (AList.delete n s)
       \<and> contains (visit_down (add s n) n idx) n
       \<and> contains (visit_up (add s n) n idx) n"
proof -
  have c: "\<not> contains (add s n) n"
    by (simp add: contains_def add_def update_conv')
  have i: "iter (add s n) = iter (AList.delete n s)"
    using assms by (simp add: add_def iter_update_empty)
  have m: "n \<notin> set (iter (AList.delete n s))"
  proof -
    have "n \<notin> fst ` set (AList.delete n s)" by (rule delete_notin_dom)
    then show ?thesis by (force simp: iter_def)
  qed
  have l: "len (add s n) = len (AList.delete n s)"
    using i by (simp add: len_def iter_def)
  have d: "contains (visit_down (add s n) n idx) n"
    by (simp add: contains_def visit_down_def update_conv')
  have u: "contains (visit_up (add s n) n idx) n"
    by (simp add: contains_def visit_up_def update_conv')
  show ?thesis using c i m l d u by simp
qed


theorem add_not_member_witness:
  "is_dict [(const_node, {''up0''}), (conv_node, {''down0''})]
   \<and> \<not> contains (add [(const_node, {''up0''}), (conv_node, {''down0''})] const_node) const_node
   \<and> const_node \<notin> set (iter (add [(const_node, {''up0''}), (conv_node, {''down0''})] const_node))
   \<and> len (add [(const_node, {''up0''}), (conv_node, {''down0''})] const_node) = 1
   \<and> contains (visit_down (add [(const_node, {''up0''}), (conv_node, {''down0''})] const_node)
        const_node 0) const_node"
  using add_not_member [of "[(const_node, {''up0''}), (conv_node, {''down0''})]" const_node 0]
  by (simp add: is_dict_def const_node_def conv_node_def len_def)

lemma get_tags_or_VN:
  "get_tags (or_nodes (VN s) res) n = get_tags res n \<union> \<Union>{t. (n, t) \<in> set s}"
proof (induction s arbitrary: res)
  case Nil
  then show ?case by (simp add: or_nodes.simps)
next
  case (Cons a s)
  obtain k t where a: "a = (k, t)" by (cases a)
  let ?res = "case map_of res k of Some old \<Rightarrow> AList.update k (old \<union> t) res
              | None \<Rightarrow> AList.update k t res"
  have step: "get_tags ?res n = get_tags res n \<union> (if n = k then t else {})"
    by (auto simp: get_tags_def update_conv' split: option.splits)
  have "or_nodes (VN (a # s)) res = or_nodes (VN s) ?res"
    by (simp add: a or_nodes.simps)
  then have "get_tags (or_nodes (VN (a # s)) res) n = get_tags ?res n \<union> \<Union>{t. (n, t) \<in> set s}"
    using Cons.IH [of ?res] by simp
  also have "\<dots> = get_tags res n \<union> \<Union>{t. (n, t) \<in> set (a # s)}"
    unfolding step by (auto simp: a)
  finally show ?case .
qed

lemma get_tags_dict:
  assumes "is_dict s"
  shows "\<Union>{t. (n, t) \<in> set s} = get_tags s n"
proof -
  have "\<And>t. (n, t) \<in> set s \<longleftrightarrow> map_of s n = Some t"
    using assms by (simp add: is_dict_def)
  then show ?thesis by (auto simp: get_tags_def split: option.splits)
qed

lemma get_tags_vn_or:
  "is_dict c \<Longrightarrow> get_tags (vn_or v (VN c)) n = get_tags v n \<union> get_tags c n"
  by (simp add: vn_or_def get_tags_or_VN get_tags_dict)


text \<open>
  C3 (as amended). \<open>check_continue\<close> has no case for LayoutFlexible terminals. On such a
  node it returns "visit" exactly when the node is not excluded, neither visited set
  holds the tag of this direction and index for it, and, unless the node is
  SensitiveToOrder, neither set holds a tag of the opposite direction for it.
\<close>

theorem check_continue_flexible:
  assumes "layout_flexible_terminal n" and "is_dict c"
    and "direction = ''up'' \<or> direction = ''down''"
  shows "check_continue v c ex n direction idx = Inr False \<longleftrightarrow>
           n \<notin> ex
         \<and> (direction @ str idx) \<notin> get_tags v n \<union> get_tags c n
         \<and> (sensitive_to_order n \<or>
              \<not> (\<exists>k \<in> get_tags v n \<union> get_tags c n.
                    startswith k (if direction = ''up'' then ''down'' else ''up'')))"
  using assms(3)
  by (auto simp: check_continue_def Let_def visited_down_def visited_up_def
        visited_direction_def get_tags_vn_or [OF assms(2)])

theorem check_continue_flexible_witness:
  "layout_flexible_terminal const_node \<and> is_dict [(conv_node, {''down0''})]
   \<and> check_continue [] [(conv_node, {''down0''})] {conv_node} const_node ''up'' 0 = Inr False"
  using check_continue_flexible [of const_node "[(conv_node, {''down0''})]" "''up''"
          "[]" "{conv_node}" 0]
  by (simp add: layout_flexible_terminal_def const_node_def conv_node_def is_dict_def get_tags_def)

text \<open>
  C3 as stated fails: a Constant that is excluded, or that was already entered upwards
  at the same index, raises \<open>CantContinueError\<close>; entered downwards after an upward
  visit it is skipped.
\<close>

theorem check_continue_flexible_counterexample:
  "layout_flexible_terminal const_node
   \<and> check_continue [] [] {const_node} const_node ''up'' 0 = Inl CantContinueError
   \<and> check_continue (visit_up [] const_node 0) [] {} const_node ''up'' 0 = Inl CantContinueError
   \<and> check_continue (visit_up [] const_node 0) [] {} const_node ''down'' 0 = Inr True"
  by (simp add: layout_flexible_terminal_def const_node_def check_continue_def vn_or_def
        or_nodes.simps visited_down_def visited_up_def visited_direction_def get_tags_def visit_up_def
        startswith_def)





section \<open>Theorems: cleanup\<close>

lemma nodes_remove_and_reconnect:
  "nodes (remove_and_reconnect G n) = filter (\<lambda>m. m \<noteq> n) (nodes G)"
  by (simp add: remove_and_reconnect_def)

lemma nodes_fold_remove:
  "nodes (fold (\<lambda>reshape G. remove_and_reconnect G reshape) rs G)
     = filter (\<lambda>m. m \<notin> set rs) (nodes G)"
proof (induction rs arbitrary: G)
  case Nil
  then show ?case by simp
next
  case (Cons r rs)
  show ?case
    by (simp add: Cons.IH nodes_remove_and_reconnect conj_commute)
qed

lemma silly_is_Reshape: "silly n \<Longrightarrow> is_Reshape (kind n)"
  by (auto simp: silly_def is_Reshape_def split: kind.splits)

text \<open>
  C8. \<open>remove_silly_reshapes\<close> removes exactly the Reshape nodes whose \<open>old_shape\<close> equals
  their \<open>shape\<close>: the nodes left are the other nodes of the graph, in their order, and
  no such Reshape is among them.
\<close>

theorem remove_silly_reshapes_nodes:
  "nodes (remove_silly_reshapes G) = filter (\<lambda>n. \<not> silly n) (nodes G)
   \<and> filter silly (nodes (remove_silly_reshapes G)) = []"
proof -
  have s: "filter silly (nodes_of_class G is_Reshape) = filter silly (nodes G)"
    unfolding nodes_of_class_def filter_filter
    by (rule filter_cong) (auto dest: silly_is_Reshape)
  have "nodes (remove_silly_reshapes G) = filter (\<lambda>m. m \<notin> set (filter silly (nodes G))) (nodes G)"
    by (simp add: remove_silly_reshapes_def Let_def nodes_fold_remove s)
  also have "\<dots> = filter (\<lambda>n. \<not> silly n) (nodes G)"
    by (rule filter_cong) auto
  finally have a: "nodes (remove_silly_reshapes G) = filter (\<lambda>n. \<not> silly n) (nodes G)" .
  show ?thesis unfolding a by (simp add: filter_empty_conv)
qed

theorem remove_silly_reshapes_nodes_witness:
  "nodes (remove_silly_reshapes rs_graph) = [rs_A, rs_B]
   \<and> edges (remove_silly_reshapes rs_graph) = [mk_edge rs_A rs_B]"
  using remove_silly_reshapes_nodes [of rs_graph]
  by (simp add: rs_graph_def rs_A_def rs_R_def rs_B_def mk_node_def mk_edge_def silly_def
        remove_silly_reshapes_def nodes_of_class_def is_Reshape_def remove_and_reconnect_def
        in_edges_def out_edges_def)

section \<open>Theorems: scoring\<close>

lemma count_eliminated_score: "count_eliminated actions = score actions"
  by (simp add: count_eliminated_def score_def sum_list_triv split: option.splits)

lemma sum_res_ret:
  "map f xs = map ret ys \<Longrightarrow> sum_res f xs = ret (sum_list ys)"
proof (induction xs arbitrary: ys)
  case Nil
  then show ?case by simp
next
  case (Cons x xs)
  then obtain y ys' where ys: "ys = y # ys'" "f x = ret y" "map f xs = map ret ys'"
    by (cases ys) auto
  then show ?case using Cons.IH [of ys'] by (simp add: and_then_def ret_def)
qed

text \<open>
  C1 (as amended). Each direction is scored by \<open>count_eliminated\<close>, which is the number
  of DeleteTranspose actions minus the number of InsertTranspose actions, and \<open>-1\<close> for a
  failed direction. The upward result is committed when its score is positive and not
  below the downward score; otherwise the downward result is committed when its score
  is positive, or when its score is zero and the sum of the step indices of the
  inserted transposes exceeds the sum of the step indices of the producers of all the
  deleted transposes of the list; otherwise nothing is committed.
\<close>

theorem evaluate_elimination_choice:
  assumes "map (insert_step_idx G) (filter is_InsertTranspose d) = map ret ins"
    and "map (delete_step_idx G) (filter is_DeleteTranspose d) = map ret dels"
  shows "count_eliminated up = score up \<and> count_eliminated (Some d) = score (Some d)
       \<and> evaluate_elimination G up (Some d) =
           ret (if 0 < score up \<and> score (Some d) \<le> score up then CommitUp
                else if 0 < score (Some d) \<or> (score (Some d) = 0 \<and> sum_list dels < sum_list ins)
                  then CommitDown
                else NoCommit)
       \<and> evaluate_elimination G up None = ret (if 0 < score up then CommitUp else NoCommit)"
proof -
  have m: "transpose_moved G (Some d) = ret (sum_list dels < sum_list ins)"
    by (simp add: transpose_moved_def sum_res_ret [OF assms(1)] sum_res_ret [OF assms(2)]
          and_then_def ret_def)
  have n: "score None = - 1" by (simp add: score_def)
  show ?thesis
    by (simp add: evaluate_elimination_def Let_def count_eliminated_score m n and_then_def ret_def)
qed


lemmas fork_defs = fork_graph_def fork_P_def fork_T_def fork_Y_def fork_S1_def fork_S2_def
  fork_W_def fork_T2_def fork_O_def mk_node_def mk_edge_def

lemma fork_insert_steps:
  "map (insert_step_idx fork_graph) (filter is_InsertTranspose fork_down) = map ret [2, 2]"
  by (simp add: fork_down_def is_InsertTranspose_def insert_step_idx_def indexed_in_edge_def
        in_edges_def fork_defs skip_transposes.simps is_Transpose_def and_then_def ret_def)

lemma fork_delete_steps:
  "map (delete_step_idx fork_graph) (filter is_DeleteTranspose fork_down) = map ret [0, 5]"
  by (simp add: fork_down_def is_DeleteTranspose_def delete_step_idx_def
        in_edges_def fork_defs ret_def)

theorem evaluate_elimination_choice_witness:
  "evaluate_elimination fork_graph (Some fork_up) (Some fork_down) = ret NoCommit"
  using evaluate_elimination_choice [OF fork_insert_steps fork_delete_steps, of "Some fork_up"]
  by (simp add: score_def fork_up_def fork_down_def is_DeleteTranspose_def is_InsertTranspose_def)

text \<open>
  C1 as stated fails when the downward list deletes a second transpose: in the fork
  graph the explorers return the two lists \<open>fork_up\<close> and \<open>fork_down\<close> for \<open>T\<close>, both scores
  are 0 and the inserted transposes sum to 4, above the step index 0
  of the producer of the examined transpose, yet nothing is committed, since the
  producers of the two deleted transposes sum to 5.
\<close>

lemma fork_explored:
  "map_option (map_sum id fst) (try_up 5 example_helpers fork_graph {} fork_T (PyList [0, 2, 1]))
     = Some (Inr (Some fork_up))"
  "map_option (map_sum id fst) (try_down 5 example_helpers fork_graph False {} fork_T (PyList [0, 2, 1]))
     = Some (Inr (Some fork_down))"
  by code_simp+

theorem evaluate_elimination_counterexample:
  "map_option (map_sum id fst) (try_up 5 example_helpers fork_graph {} fork_T (PyList [0, 2, 1]))
     = Some (Inr (Some fork_up))
   \<and> map_option (map_sum id fst) (try_down 5 example_helpers fork_graph False {} fork_T (PyList [0, 2, 1]))
     = Some (Inr (Some fork_down))
   \<and> count_eliminated (Some fork_up) = 0
   \<and> count_eliminated (Some fork_down) = 0
   \<and> sum_res (insert_step_idx fork_graph) (filter is_InsertTranspose fork_down) = ret 4
   \<and> delete_step_idx fork_graph (DeleteTransposeAction fork_T None) = ret 0
   \<and> evaluate_elimination fork_graph (Some fork_up) (Some fork_down) = ret NoCommit"
proof -
  have c: "count_eliminated (Some fork_up) = 0" "count_eliminated (Some fork_down) = 0"
    by (simp_all add: count_eliminated_def fork_up_def fork_down_def is_DeleteTranspose_def
          is_InsertTranspose_def)
  have i: "sum_res (insert_step_idx fork_graph) (filter is_InsertTranspose fork_down) = ret 4"
    using sum_res_ret [OF fork_insert_steps] by simp
  have d: "sum_res (delete_step_idx fork_graph) (filter is_DeleteTranspose fork_down) = ret 5"
    using sum_res_ret [OF fork_delete_steps] by simp
  have t: "delete_step_idx fork_graph (DeleteTransposeAction fork_T None) = ret 0"
    by (simp add: delete_step_idx_def in_edges_def fork_defs)
  have e: "evaluate_elimination fork_graph (Some fork_up) (Some fork_down) = ret NoCommit"
    by (simp add: evaluate_elimination_def c transpose_moved_def i d and_then_def ret_def)
  show ?thesis using fork_explored c i t e by simp
qed

section \<open>Theorems: the explorers\<close>

lemma and_then_ret [simp]: "and_then (ret x) f = f x"
  by (simp add: and_then_def ret_def)

lemma and_then_raise [simp]: "and_then (raise e) f = raise e"
  by (simp add: and_then_def raise_def)

text \<open>
  C6. At a Transpose node (which is neither SensitiveToOrder nor Broadcastable) with an
  incoming permutation \<open>p\<close> of length above 1, \<open>search_down\<close> returns at any positive depth,
  without exploring further: when \<open>reverses_transpose_up\<close> reports that \<open>p\<close> reverses the
  node's permutation, exactly a \<open>DeleteTransposeAction\<close> (with the residual reshape when
  the helper returns an old shape) and \<open>EndActionDown\<close>; otherwise exactly a
  \<open>SetTransposeAction\<close> and \<open>EndActionDown\<close>, where the new permutation is
  \<open>apply_transpose(p, node.transpose)\<close>, whose elements are those of
  \<open>compose(p, node.transpose) = apply(node.transpose, p)\<close>.
\<close>

theorem search_down_at_transpose:
  assumes "kind n = Transpose t"
    and "\<not> sensitive_to_order n" and "\<not> broadcastable n"
    and "transpose_history \<noteq> []" and "h_transpose (last transpose_history) = Some p"
    and "length (items p) > 1"
    and "to_idx in_edge < length (in_dims n)" and "out_dims n \<noteq> []"
    and "\<And>elems q. items (apply_transpose H elems (Some q)) = spec_apply (items q) (items elems)"
  shows "search_down (Suc d) H G n exclude_nodes visited_nodes in_edge transpose_history =
           ret (case reverses_transpose_up H p t (out_dims n ! 0) of
                  (reverses_transpose, old_shape) \<Rightarrow>
                    if reverses_transpose
                    then [DeleteTransposeAction n
                            (case old_shape of
                               None \<Rightarrow> None
                             | Some s \<Rightarrow> if items s \<noteq> [] then Some (s, out_dims n ! 0) else None),
                          EndActionDown n]
                    else [SetTransposeAction n (apply_transpose H p (Some t)), EndActionDown n],
                VN (visit_down [] n (to_idx in_edge)))
         \<and> items (apply_transpose H p (Some t)) = spec_compose (items p) (items t)"
proof -
  have b: "down_broadcast n (Some p) (in_dims n ! to_idx in_edge) transpose_history
             = ret (Some p, in_dims n ! to_idx in_edge, transpose_history)"
    using assms(1,3) by (simp add: down_broadcast_def)
  have e: "down_explore_up H G (search d H G) n exclude_nodes visited_nodes in_edge (Some p)
             (visit_down [] n (to_idx in_edge)) = ret ([], visit_down [] n (to_idx in_edge))"
    using assms(1,3) by (simp add: down_explore_up_def)
  have t: "down_transpose H n t (Some p) (visit_down [] n (to_idx in_edge)) =
             ret (case reverses_transpose_up H p t (out_dims n ! 0) of
                  (reverses_transpose, old_shape) \<Rightarrow>
                    if reverses_transpose
                    then [DeleteTransposeAction n
                            (case old_shape of
                               None \<Rightarrow> None
                             | Some s \<Rightarrow> if items s \<noteq> [] then Some (s, out_dims n ! 0) else None),
                          EndActionDown n]
                    else [SetTransposeAction n (apply_transpose H p (Some t)), EndActionDown n],
                VN (visit_down [] n (to_idx in_edge)))"
    using assms(8)
    by (simp add: down_transpose_def check_for_null_transpose_def nth_res_def
          Let_def split: prod.splits)
  have s: "search_down (Suc d) H G n exclude_nodes visited_nodes in_edge transpose_history =
             down_transpose H n t (Some p) (visit_down [] n (to_idx in_edge))"
    using assms(2,4,5,6,7)
    by (simp add: search_down_def search_down_body_def last_res_def nth_res_def Let_def
          b e down_dispatch_def assms(1))
  have c: "items (apply_transpose H p (Some t)) = spec_compose (items p) (items t)"
    by (simp add: assms(9) spec_compose_def)
  show ?thesis using s t c by simp
qed

lemmas example_defs = mk_node_def mk_edge_def hist_def

lemma example_helpers_simps:
  "reverse_transpose example_helpers tp = map_option (\<lambda>p. PyList (spec_reverse (items p))) tp"
  "apply_transpose example_helpers elems (Some p) = PyList (spec_apply (items p) (items elems))"
  "transpose_does_nothing example_helpers (Some p) shape
     = spec_does_nothing (items p) (items shape)"
  "reverses_transpose_up example_helpers trans1 trans2 dim
     = (items trans2 = spec_reverse (items trans1), None)"
  "execute example_helpers (DeleteTransposeAction n reshape) G = remove_and_reconnect G n"
  "execute example_helpers (EndActionDown n) G = G"
  "execute example_helpers (EndActionUp n) G = G"
  "add_dimensions example_helpers G = G"
  by (simp_all add: example_helpers_def)

theorem search_down_at_transpose_witness:
  "search_down 1 example_helpers fork_graph fork_T2 {} [] (mk_edge fork_W fork_T2)
       (hist fork_T (PyList [0, 2, 1]))
     = ret ([DeleteTransposeAction fork_T2 None, EndActionDown fork_T2],
            VN (visit_down [] fork_T2 0))
   \<and> search_down 1 example_helpers fork_graph fork_T2 {} [] (mk_edge fork_W fork_T2)
       (hist fork_T (PyList [2, 0, 1]))
     = ret ([SetTransposeAction fork_T2 (PyList [2, 1, 0]), EndActionDown fork_T2],
            VN (visit_down [] fork_T2 0))"
proof -
  have h: "\<And>elems q. items (apply_transpose example_helpers elems (Some q))
             = spec_apply (items q) (items elems)"
    by (simp add: example_helpers_def)
  show ?thesis
    using search_down_at_transpose [of fork_T2 "PyList [0, 2, 1]" "hist fork_T (PyList [0, 2, 1])"
            "PyList [0, 2, 1]" "mk_edge fork_W fork_T2" example_helpers 0 fork_graph "{}" "[]",
            OF _ _ _ _ _ _ _ _ h]
          search_down_at_transpose [of fork_T2 "PyList [0, 2, 1]" "hist fork_T (PyList [2, 0, 1])"
            "PyList [2, 0, 1]" "mk_edge fork_W fork_T2" example_helpers 0 fork_graph "{}" "[]",
            OF _ _ _ _ _ _ _ _ h]
    by (simp add: fork_T2_def fork_W_def example_defs example_helpers_simps spec_reverse_def
          spec_compose_def spec_apply_def)
qed

text \<open>
  The rule of \<open>search_up\<close> for a linear layer whose filter has a batch size above 1, at
  a node that is not SensitiveToOrder and for a permutation whose length is not 1, once
  the downward exploration of the other out edges has returned: the tuple \<open>(1, 0)\<close>
  gives \<open>SwitchBatchLinearAction\<close>; every other permutation, the list \<open>[1, 0]\<close> among
  them, gives an \<open>InsertTransposeAction\<close> on the out edge.
\<close>

lemma search_up_at_batched_linear:
  assumes "kind n = Fc batch_size \<or> kind n = LinearFusion (batch_size # filters)"
    and "batch_size > 1"
    and "\<not> sensitive_to_order n"
    and "transpose_history \<noteq> []" and "h_transpose (last transpose_history) = Some p"
    and "length (items p) \<noteq> 1"
    and "up_explore_down H G (search d H G) n exclude_nodes visited_nodes out_edge (Some p)
           (visit_up [] n (from_idx out_edge)) = ret (cur_actions, cur_visited_nodes)"
  shows "search_up (Suc d) H G n exclude_nodes visited_nodes out_edge transpose_history =
           ret (if p = PyTuple [1, 0]
                then cur_actions @ [SwitchBatchLinearAction n, EndActionUp n]
                else [InsertTransposeAction n ''out'' (from_idx out_edge) (Some out_edge)
                        (reverse_transpose H (Some p)), EndActionUp n],
                VN cur_visited_nodes)"
proof -
  have l: "up_dispatch H G (search d H G) n exclude_nodes visited_nodes out_edge (Some p)
             transpose_history cur_actions cur_visited_nodes
           = up_linear H G n batch_size out_edge (Some p) transpose_history cur_actions
               cur_visited_nodes"
    using assms(1) by (auto simp: up_dispatch_def)
  show ?thesis
    using assms(2,3,4,5,6)
    by (simp add: search_up_def search_up_body_def last_res_def Let_def assms(7) l up_linear_def)
qed

lemma sum_down_list:
  "map_option (map_sum id fst)
     (try_down 3 example_helpers (sum_graph (PyList [1, 0])) False {} (sum_T (PyList [1, 0]))
        (PyList [1, 0]))
   = Some (Inr (Some [DeleteTransposeAction (sum_T (PyList [1, 0])) None,
                      InsertTransposeAction sum_L ''out'' 0 (Some sum_LA) (Some (PyList [1, 0])),
                      EndActionUp sum_L, EndActionDown sum_O]))"
  by code_simp

lemma sum_down_tuple:
  "map_option (map_sum id fst)
     (try_down 3 example_helpers (sum_graph (PyTuple [1, 0])) False {} (sum_T (PyTuple [1, 0]))
        (PyTuple [1, 0]))
   = Some (Inr (Some [DeleteTransposeAction (sum_T (PyTuple [1, 0])) None,
                      SwitchBatchLinearAction sum_L,
                      EndActionUp sum_L, EndActionDown sum_O]))"
  by code_simp

lemma sum_up_list:
  "map_option (map_sum id fst)
     (search_up 1 example_helpers (sum_graph (PyList [1, 0])) sum_L {} [] sum_LA
        (hist sum_A (PyList [1, 0])))
   = Some (Inr [InsertTransposeAction sum_L ''out'' 0 (Some sum_LA) (Some (PyList [1, 0])),
                EndActionUp sum_L])"
  by code_simp

text \<open>
  C7. The test of the rule is \<open>transpose == (1, 0)\<close>, which is false for the list
  \<open>[1, 0]\<close>; the Transpose rule of the same function compares
  \<open>tuple(node.transpose) == tuple(transpose)\<close>. In the graph \<open>I -> T -> A, J -> L -> A\<close> with
  \<open>L\<close> a linear layer of batch size 2, the downward attempt for \<open>T\<close> explores the other
  input of \<open>A\<close> upwards and reaches \<open>L\<close> with the permutation of \<open>T\<close>. When \<open>T\<close> holds the
  list \<open>[1, 0]\<close>, the permutation is (1, 0) and \<open>search_up\<close> inserts a transpose after \<open>L\<close>;
  when \<open>T\<close> holds the tuple \<open>(1, 0)\<close>, the same graph gives \<open>SwitchBatchLinearAction\<close>.
\<close>

theorem batched_linear_list_not_switched:
  "items (PyList [1, 0]) = items (PyTuple [1, 0])
   \<and> map_option (map_sum id fst)
       (search_up 1 example_helpers (sum_graph (PyList [1, 0])) sum_L {} [] sum_LA
          (hist sum_A (PyList [1, 0])))
     = Some (Inr [InsertTransposeAction sum_L ''out'' 0 (Some sum_LA) (Some (PyList [1, 0])),
                  EndActionUp sum_L])
   \<and> map_option (map_sum id fst)
       (try_down 3 example_helpers (sum_graph (PyList [1, 0])) False {} (sum_T (PyList [1, 0]))
          (PyList [1, 0]))
     = Some (Inr (Some [DeleteTransposeAction (sum_T (PyList [1, 0])) None,
                        InsertTransposeAction sum_L ''out'' 0 (Some sum_LA) (Some (PyList [1, 0])),
                        EndActionUp sum_L, EndActionDown sum_O]))
   \<and> map_option (map_sum id fst)
       (try_down 3 example_helpers (sum_graph (PyTuple [1, 0])) False {} (sum_T (PyTuple [1, 0]))
          (PyTuple [1, 0]))
     = Some (Inr (Some [DeleteTransposeAction (sum_T (PyTuple [1, 0])) None,
                        SwitchBatchLinearAction sum_L,
                        EndActionUp sum_L, EndActionDown sum_O]))"
  using sum_up_list sum_down_list sum_down_tuple by simp

section \<open>Theorems: the driver\<close>

lemma stuck_message_sublist: "sublist ''stuck in a loop'' stuck_message"
proof -
  have "stuck_message = ''Sorry, eliminate transposes seems to be '' @ ''stuck in a loop''
          @ ''. Please report to GreenWaves.''"
    by (simp add: stuck_message_def)
  then show ?thesis unfolding sublist_def by blast
qed

lemma loop_at_limit:
  "found st \<Longrightarrow> pass_count st \<ge> 50 \<Longrightarrow>
   eliminate_loop d H dbg None single_step do_silly only_up st
     = Some (st, Some (ValueError stuck_message))"
  by (subst eliminate_loop.simps) simp

lemma loop_no_steps:
  "eliminate_loop d H dbg steps single_step do_silly only_up st = Some (st', out) \<Longrightarrow>
   steps = None \<Longrightarrow> pass_count st \<le> 50 \<Longrightarrow>
   pass_count st' \<le> 50
   \<and> (out = None \<longrightarrow> \<not> found st')
   \<and> (\<forall>m. out = Some (ValueError m) \<longrightarrow> pass_count st' = 50 \<and> found st' \<and> m = stuck_message)"
proof (induction d H dbg steps single_step do_silly only_up st rule: eliminate_loop.induct)
  case (1 d H dbg steps single_step do_silly only_up st)
  show ?case
  proof (cases "\<not> found st \<or> pass_count st \<ge> 50")
    case True
    then show ?thesis
      using "1.prems" by (subst (asm) eliminate_loop.simps) (auto split: if_splits)
  next
    case False
    then have f: "found st" "pass_count st < 50" by auto
    show ?thesis
      using "1.prems" f
      apply (subst (asm) eliminate_loop.simps)
      apply (simp add: Let_def split: option.splits prod.splits)
       apply (use "1.IH" f "1.prems"(2) in \<open>auto simp: Let_def\<close>)
      done
  qed
qed


lemma loop_with_steps:
  "eliminate_loop d H dbg steps single_step do_silly only_up st = Some (st', out) \<Longrightarrow>
   steps = Some n \<Longrightarrow> int (pass_count st) \<le> max 0 n \<Longrightarrow>
   int (pass_count st') \<le> max 0 n \<and> (\<forall>m. out \<noteq> Some (ValueError m))"
proof (induction d H dbg steps single_step do_silly only_up st rule: eliminate_loop.induct)
  case (1 d H dbg steps single_step do_silly only_up st)
  show ?case
  proof (cases "\<not> found st \<or> int (pass_count st) \<ge> n")
    case True
    then show ?thesis
      using "1.prems" by (subst (asm) eliminate_loop.simps) (auto split: if_splits)
  next
    case False
    then have f: "found st" "int (pass_count st) < n" by auto
    show ?thesis
      using "1.prems" f
      apply (subst (asm) eliminate_loop.simps)
      apply (simp add: Let_def split: option.splits prod.splits)
       apply (use "1.IH" f "1.prems"(2) in \<open>auto simp: Let_def\<close>)
      done
  qed
qed

text \<open>
  C2. With \<open>steps = None\<close> a call that ends has run at most 50 passes; it returns only
  when the last pass found no result, and it raises the \<open>ValueError\<close>, whose message
  contains "stuck in a loop", only after 50 passes of which the last found results;
  and whenever 50 passes have run and the last found results, it does raise it. With
  \<open>steps\<close> an integer the call runs at most \<open>steps\<close> passes (none when \<open>steps\<close> is not
  positive) and never raises this error.
\<close>

theorem eliminate_transposes_pass_limit:
  "(eliminate_transposes d H G dbg None single_step do_silly only_up = Some (st, out) \<longrightarrow>
      pass_count st \<le> 50
      \<and> (out = None \<longrightarrow> \<not> found st)
      \<and> (\<forall>m. out = Some (ValueError m) \<longrightarrow>
             pass_count st = 50 \<and> found st \<and> sublist ''stuck in a loop'' m))
   \<and> (found st0 \<and> pass_count st0 = 50 \<longrightarrow>
        eliminate_loop d H dbg None single_step do_silly only_up st0
          = Some (st0, Some (ValueError stuck_message)))
   \<and> (eliminate_transposes d H G dbg (Some n) single_step do_silly only_up = Some (st, out) \<longrightarrow>
        int (pass_count st) \<le> max 0 n \<and> (\<forall>m. out \<noteq> Some (ValueError m)))"
proof (intro conjI impI)
  assume a: "eliminate_transposes d H G dbg None single_step do_silly only_up = Some (st, out)"
  have r: "pass_count st \<le> 50 \<and> (out = None \<longrightarrow> \<not> found st)
     \<and> (\<forall>m. out = Some (ValueError m) \<longrightarrow> pass_count st = 50 \<and> found st \<and> m = stuck_message)"
    using a unfolding eliminate_transposes_def by (rule loop_no_steps) simp_all
  show "pass_count st \<le> 50" using r by simp
  show "\<not> found st" if "out = None" using r that by simp
  show "\<forall>m. out = Some (ValueError m) \<longrightarrow>
          pass_count st = 50 \<and> found st \<and> sublist ''stuck in a loop'' m"
    using r stuck_message_sublist by auto
next
  assume "found st0 \<and> pass_count st0 = 50"
  then show "eliminate_loop d H dbg None single_step do_silly only_up st0
               = Some (st0, Some (ValueError stuck_message))"
    by (simp add: loop_at_limit)
next
  assume a: "eliminate_transposes d H G dbg (Some n) single_step do_silly only_up = Some (st, out)"
  have r: "int (pass_count st) \<le> max 0 n \<and> (\<forall>m. out \<noteq> Some (ValueError m))"
    using a unfolding eliminate_transposes_def by (rule loop_with_steps) simp_all
  show "int (pass_count st) \<le> max 0 n" using r by simp
  show "\<forall>m. out \<noteq> Some (ValueError m)" using r by simp
qed

lemma try_transposes_one:
  "try_transposes d H G True only_up transposes s = Some (s', e) \<Longrightarrow>
   length (found_log s') \<le> Suc (length (found_log s))"
proof (induction transposes arbitrary: s)
  case Nil
  then show ?case by simp
next
  case (Cons t ts)
  show ?case
  proof (cases "t \<in> pass_visited s")
    case True
    then show ?thesis using Cons.prems Cons.IH by simp
  next
    case False
    show ?thesis
    proof (cases "kind t")
      case (Transpose p)
      show ?thesis
      proof (cases "try_up d H G (pass_visited s) t p")
        case None
        then show ?thesis using Cons.prems False Transpose by simp
      next
        case (Some ru)
        show ?thesis
        proof (cases ru)
          case (Inl err)
          then show ?thesis using Cons.prems False Transpose Some by simp
        next
          case (Inr up)
          obtain cur_actions_up cur_visited_up where up: "up = (cur_actions_up, cur_visited_up)"
            by (cases up)
          show ?thesis
          proof (cases "try_down d H G only_up (pass_visited s) t p")
            case None
            then show ?thesis using Cons.prems False Transpose Some Inr up by simp
          next
            case rd: (Some rd)
            show ?thesis
            proof (cases rd)
              case (Inl err)
              then show ?thesis using Cons.prems False Transpose Some Inr up rd by simp
            next
              case dn: (Inr down)
              obtain cur_actions_down cur_visited_down
                where down: "down = (cur_actions_down, cur_visited_down)"
                by (cases down)
              show ?thesis
              proof (cases "evaluate_elimination G cur_actions_up cur_actions_down")
                case None
                then show ?thesis
                  using Cons.prems False Transpose Some Inr up rd dn down by simp
              next
                case ev: (Some rev)
                show ?thesis
                proof (cases rev)
                  case (Inl err)
                  then show ?thesis
                    using Cons.prems False Transpose Some Inr up rd dn down ev by simp
                next
                  case c: (Inr c)
                  show ?thesis
                  proof (cases c)
                    case CommitUp
                    then show ?thesis
                      using Cons.prems False Transpose Some Inr up rd dn down ev c
                      by (auto simp: commit_def)
                  next
                    case CommitDown
                    then show ?thesis
                      using Cons.prems False Transpose Some Inr up rd dn down ev c
                      by (auto simp: commit_def)
                  next
                    case NoCommit
                    then show ?thesis
                      using Cons.prems False Transpose Some Inr up rd dn down ev c Cons.IH
                      by simp
                  qed
                qed
              qed
            qed
          qed
        qed
      qed
    qed (use Cons.prems False in simp_all)
  qed
qed

lemma loop_one_per_pass:
  "eliminate_loop d H dbg steps single_step do_silly only_up st = Some (st', out) \<Longrightarrow>
   single_step \<or> steps \<noteq> None \<Longrightarrow>
   distinct (map fst (eliminations st)) \<Longrightarrow>
   \<forall>k \<in> fst ` set (eliminations st). k \<le> pass_count st \<Longrightarrow>
   distinct (map fst (eliminations st')) \<and> (\<forall>k \<in> fst ` set (eliminations st'). k \<le> pass_count st')"
proof (induction d H dbg steps single_step do_silly only_up st rule: eliminate_loop.induct)
  case (1 d H dbg steps single_step do_silly only_up st)
  let ?ts = "sort_key name (nodes_of_class (graph_of st) is_Transpose)"
  let ?s0 = "\<lparr>found_results = False, pass_visited = {}, pass_actions = [], found_log = []\<rparr>"
  let ?el = "\<lambda>s. eliminations st @ map (\<lambda>(nm, c). (pass_count st + 1, nm, c)) (found_log s)"
  have step: "distinct (map fst (?el s)) \<and> (\<forall>k \<in> fst ` set (?el s). k \<le> pass_count st + 1)"
    if t: "try_transposes d H (graph_of st) (single_step \<or> steps \<noteq> None) only_up ?ts ?s0
             = Some (s, e)" for s e
  proof -
    have "try_transposes d H (graph_of st) True only_up ?ts ?s0 = Some (s, e)"
      using t "1.prems"(2) by simp
    then have "length (found_log s) \<le> Suc (length (found_log ?s0))"
      by (rule try_transposes_one)
    then have "length (found_log s) \<le> 1" by simp
    then consider "found_log s = []" | x where "found_log s = [x]"
      by (cases "found_log s") auto
    then show ?thesis
    proof cases
      case 1
      then show ?thesis using "1.prems"(3,4) by auto
    next
      case 2
      obtain nm c where "x = (nm, c)" by (cases x)
      then show ?thesis using 2 "1.prems"(3,4) by auto
    qed
  qed
  show ?case
  proof (cases "\<not> found st \<or> (case steps of Some n \<Rightarrow> int (pass_count st) \<ge> n | None \<Rightarrow> False)
                 \<or> (steps = None \<and> pass_count st \<ge> 50)")
    case True
    then have "eliminate_loop d H dbg steps single_step do_silly only_up st
                 = Some (st, if \<not> found st \<or> (case steps of Some n \<Rightarrow> int (pass_count st) \<ge> n
                                                  | None \<Rightarrow> False)
                             then None else Some (ValueError stuck_message))"
      by (subst eliminate_loop.simps) auto
    then have "st' = st" using "1.prems"(1) by simp
    then show ?thesis using "1.prems"(3,4) by simp
  next
    case False
    then have f: "\<not> \<not> found st"
      "\<not> (case steps of None \<Rightarrow> False | Some n \<Rightarrow> n \<le> int (pass_count st))"
      "\<not> (steps = None \<and> 50 \<le> pass_count st)" by auto
    have unf: "eliminate_loop d H dbg steps single_step do_silly only_up st =
      (case try_transposes d H (graph_of st) (single_step \<or> steps \<noteq> None) only_up ?ts ?s0 of
         None \<Rightarrow> None
       | Some (s, Some err) \<Rightarrow>
           Some (st\<lparr>pass_count := pass_count st + 1, found := found_results s,
                    eliminations := ?el s\<rparr>, Some (Uncaught err))
       | Some (s, None) \<Rightarrow>
           (case finish_pass H dbg do_silly s (graph_of st) of
              None \<Rightarrow> None
            | Some G' \<Rightarrow>
                eliminate_loop d H dbg steps single_step do_silly only_up
                  \<lparr>graph_of = G', pass_count = pass_count st + 1, found = found_results s,
                   eliminations = ?el s\<rparr>))"
      using f by (subst eliminate_loop.simps) (cases steps; simp add: Let_def)
    show ?thesis
    proof (cases "try_transposes d H (graph_of st) (single_step \<or> steps \<noteq> None) only_up ?ts ?s0")
      case None
      then show ?thesis using "1.prems"(1) unfolding unf by simp
    next
      case (Some r)
      obtain s e where r: "r = (s, e)" by (cases r)
      note t = Some [unfolded r]
      show ?thesis
      proof (cases e)
        case (Some err)
        then have "st' = st\<lparr>pass_count := pass_count st + 1, found := found_results s,
                              eliminations := ?el s\<rparr>"
          using "1.prems"(1) t unfolding unf by simp
        then show ?thesis using step [OF t] by simp
      next
        case None
        note t' = t [unfolded None]
        show ?thesis
        proof (cases "finish_pass H dbg do_silly s (graph_of st)")
          case None
          then show ?thesis using "1.prems"(1) t' unfolding unf by simp
        next
          case (Some G')
          let ?st1 = "\<lparr>graph_of = G', pass_count = pass_count st + 1, found = found_results s,
                       eliminations = ?el s\<rparr>"
          have run: "eliminate_loop d H dbg steps single_step do_silly only_up ?st1 = Some (st', out)"
            using "1.prems"(1) t' Some unfolding unf by simp
          have i1: "distinct (map fst (eliminations ?st1))"
            and i2: "\<forall>k \<in> fst ` set (eliminations ?st1). k \<le> pass_count ?st1"
            using step [OF t'] by simp_all
          show ?thesis
            by (rule "1.IH" [OF f refl refl t' refl refl Some run "1.prems"(2) i1 i2])
        qed
      qed
    qed
  qed
qed

lemma summary_SomeD:
  "summary r = Some (pc, el, ns, out) \<Longrightarrow>
   \<exists>st. r = Some (st, out) \<and> pass_count st = pc \<and> eliminations st = el"
  by (cases r) (auto simp: summary_def)

lemma idle_run_stuck:
  "summary (eliminate_transposes 2 idle_helpers first_pair None None False False False)
     = Some (50, map (\<lambda>k. (k, ''Ta'', CommitDown)) [1..<51], [''I1'', ''Ta'', ''Tb'', ''O1''],
             Some (ValueError stuck_message))"
  by code_simp

lemma idle_run_steps:
  "summary (eliminate_transposes 2 idle_helpers first_pair None (Some 3) False False False)
     = Some (3, map (\<lambda>k. (k, ''Ta'', CommitDown)) [1..<4], [''I1'', ''Ta'', ''Tb'', ''O1''], None)"
  by code_simp

theorem eliminate_transposes_pass_limit_witness:
  "(\<exists>st. eliminate_transposes 2 idle_helpers first_pair None None False False False
            = Some (st, Some (ValueError stuck_message))
          \<and> pass_count st = 50 \<and> found st \<and> sublist ''stuck in a loop'' stuck_message
          \<and> eliminate_loop 2 idle_helpers None None False False False st
               = Some (st, Some (ValueError stuck_message)))
   \<and> (\<exists>st. eliminate_transposes 2 idle_helpers first_pair None (Some 3) False False False
            = Some (st, None)
          \<and> int (pass_count st) \<le> max 0 3)"
proof -
  obtain st where e:
    "eliminate_transposes 2 idle_helpers first_pair None None False False False
       = Some (st, Some (ValueError stuck_message))"
    using summary_SomeD [OF idle_run_stuck] by blast
  obtain st' where e':
    "eliminate_transposes 2 idle_helpers first_pair None (Some 3) False False False
       = Some (st', None)"
    using summary_SomeD [OF idle_run_steps] by blast
  note t = eliminate_transposes_pass_limit [where d = 2 and H = idle_helpers and G = first_pair
      and dbg = None and single_step = False and do_silly = False and only_up = False
      and st = st and out = "Some (ValueError stuck_message)" and ?st0.0 = st and n = 3]
  note t' = eliminate_transposes_pass_limit [where d = 2 and H = idle_helpers and G = first_pair
      and dbg = None and single_step = False and do_silly = False and only_up = False
      and st = st' and out = None and ?st0.0 = st' and n = 3]
  have "\<forall>m. Some (ValueError stuck_message) = Some (ValueError m) \<longrightarrow>
          pass_count st = 50 \<and> found st \<and> sublist ''stuck in a loop'' m"
    using t e by blast
  then have a: "pass_count st = 50 \<and> found st \<and> sublist ''stuck in a loop'' stuck_message"
    by blast
  have b: "eliminate_loop 2 idle_helpers None None False False False st
             = Some (st, Some (ValueError stuck_message))"
    using t a by blast
  have c: "int (pass_count st') \<le> max 0 3"
    using t' e' by blast
  show ?thesis using e e' a b c by blast
qed

text \<open>
  C4 (as amended). With \<open>single_step\<close> set, the loop over the transposes of a pass stops
  at its first commit, so each pass selects and executes at most one winning action
  set: no two eliminations of a call belong to the same pass. The passes themselves
  go on while the last pass found a result.
\<close>

theorem single_step_one_per_pass:
  assumes "single_step"
    and "eliminate_transposes d H G dbg steps single_step do_silly only_up = Some (st, out)"
  shows "distinct (map fst (eliminations st))
       \<and> (\<forall>k \<in> fst ` set (eliminations st). k \<le> pass_count st)"
  using assms(2) unfolding eliminate_transposes_def
  by (rule loop_one_per_pass) (use assms(1) in simp_all)

lemma pairs_run:
  "summary (eliminate_transposes 3 example_helpers pairs_graph None None True False False)
     = Some (3, [(1, ''Ta'', CommitDown), (2, ''Tc'', CommitDown)],
             [''I1'', ''O1'', ''I2'', ''O2''], None)"
  by code_simp

theorem single_step_one_per_pass_witness:
  "\<exists>st. eliminate_transposes 3 example_helpers pairs_graph None None True False False
          = Some (st, None)
        \<and> eliminations st = [(1, ''Ta'', CommitDown), (2, ''Tc'', CommitDown)]
        \<and> distinct (map fst (eliminations st))"
proof -
  obtain st where e:
    "eliminate_transposes 3 example_helpers pairs_graph None None True False False = Some (st, None)"
    and l: "eliminations st = [(1, ''Ta'', CommitDown), (2, ''Tc'', CommitDown)]"
    using summary_SomeD [OF pairs_run] by blast
  have "distinct (map fst (eliminations st))"
    using single_step_one_per_pass [OF TrueI e] by (rule conjunct1)
  then show ?thesis using e l by blast
qed

text \<open>
  C4 as stated fails: with \<open>single_step\<close> set and \<open>steps = None\<close>, the call on the graph
  of two cancelling pairs commits the pair of \<open>Ta\<close> in its first pass, executes it, and
  in its second pass attempts and commits the pair of \<open>Tc\<close>; a third pass finds
  nothing, and no transpose is left.
\<close>

theorem single_step_counterexample:
  "summary (eliminate_transposes 3 example_helpers pairs_graph None None True False False)
     = Some (3, [(1, ''Ta'', CommitDown), (2, ''Tc'', CommitDown)],
             [''I1'', ''O1'', ''I2'', ''O2''], None)"
  by (rule pairs_run)
end
